theory Spec2Isabelle
  imports Main "HOL-Library.Multiset" "HOL-Library.Product_Lexorder"
begin

section \<open>Strings\<close>

text \<open>
  A Python \<open>str\<close> is a sequence of Unicode code points; \<open>len\<close>, which the length
  constraints of \<open>schemas.py\<close> count, is the length of that sequence. The 404 message of
  \<open>routes.py\<close> is Cyrillic, so a code point is a natural number here and not an 8-bit
  character. \<open>u\<close> embeds an ASCII literal.
\<close>

type_synonym str = "nat list"

definition u :: "string \<Rightarrow> str" where
  "u cs = map of_char cs"

text \<open>\<open>str(n)\<close> for a Python integer: decimal digits, with a minus sign when negative.\<close>

fun digits :: "nat \<Rightarrow> str" where
  "digits n = (if n < 10 then [48 + n] else digits (n div 10) @ [48 + n mod 10])"

declare digits.simps [simp del]

definition str_int :: "int \<Rightarrow> str" where
  "str_int i = (if i < 0 then 45 # digits (nat (- i)) else digits (nat i))"

section \<open>database.py: the tables\<close>

text \<open>
  \<open>class Recipe(Base)\<close> and \<open>class Ingredient(Base)\<close>: one record per row. Python
  integers are unbounded, so the integer columns are \<open>int\<close>; that SQLite stores 64 bits
  shows where a statement takes its parameters.
\<close>

record Recipe =
  Recipe_id :: int
  Recipe_title :: str
  Recipe_cooking_time :: int
  Recipe_description :: str
  Recipe_views :: int

record Ingredient =
  Ingredient_id :: int
  Ingredient_name :: str
  Ingredient_quantity :: str
  Ingredient_recipe_id :: int

text \<open>The database file \<open>cookbook.db\<close>: both tables, each in rowid order.\<close>

record Database =
  recipes :: "Recipe list"
  ingredients :: "Ingredient list"

text \<open>
  An object built by \<open>Recipe(title=..., cooking_time=..., description=..., views=...)\<close> or
  \<open>Ingredient(name=..., quantity=..., recipe_id=...)\<close> that has no primary key yet.
\<close>

datatype transient =
  NewRecipe str int str int
| NewIngredient str str int

section \<open>Errors, statements and the session\<close>

datatype error =
  HTTPException int str
| RequestValidationError
| ValidationError
| StorageError
| OverflowError
| MultipleResultsFound
| InvalidRequestError

text \<open>What the session sends to the storage engine, in the order it sends it.\<close>

datatype statement = SELECT | INSERT | UPDATE | COMMIT | ROLLBACK | CLOSE

text \<open>
  The \<open>AsyncSession\<close>. \<open>stored\<close> is the committed content of the database, \<open>tx\<close> the
  content as the open transaction sees it, \<open>new\<close> the objects passed to \<open>add\<close> and not
  flushed yet, \<open>dirty\<close> the pending assignments to \<open>views\<close> (primary key, new value).
  The storage engine is outside the repository and may fail: \<open>budget\<close> is the number of
  statements it will still execute (\<open>None\<close>: it never fails); the statement after
  that raises \<open>StorageError\<close>. \<open>trace\<close> records what was executed.
\<close>

record AsyncSession =
  stored :: Database
  tx :: Database
  new :: "transient list"
  dirty :: "(int \<times> int) list"
  budget :: "nat option"
  trace :: "statement list"
  closed :: bool

type_synonym 'a io = "AsyncSession \<Rightarrow> (error + 'a) \<times> AsyncSession"

definition return :: "'a \<Rightarrow> 'a io" where
  "return x s = (Inr x, s)"

definition raise :: "error \<Rightarrow> 'a io" where
  "raise e s = (Inl e, s)"

text \<open>Sequencing: an exception skips the rest.\<close>

definition bind :: "'a io \<Rightarrow> ('a \<Rightarrow> 'b io) \<Rightarrow> 'b io" where
  "bind m f s = (case m s of (Inl e, s') \<Rightarrow> (Inl e, s') | (Inr x, s') \<Rightarrow> f x s')"

definition execute :: "statement \<Rightarrow> unit io" where
  "execute st s =
     (case budget s of
        None \<Rightarrow> (Inr (), s\<lparr>trace := trace s @ [st]\<rparr>)
      | Some 0 \<Rightarrow> (Inl StorageError, s)
      | Some (Suc n) \<Rightarrow> (Inr (), s\<lparr>budget := Some n, trace := trace s @ [st]\<rparr>))"

text \<open>
  A SQLite \<open>INTEGER\<close> is a signed 64-bit integer. The driver converts every integer
  parameter of a statement before the statement is executed and raises \<open>OverflowError\<close>
  for a Python integer outside that range.
\<close>

definition int64 :: "int \<Rightarrow> bool" where
  "int64 i \<longleftrightarrow> - (2 ^ 63) \<le> i \<and> i < 2 ^ 63"

definition bind_params :: "int list \<Rightarrow> unit io" where
  "bind_params ps = (if list_all int64 ps then return () else raise OverflowError)"

text \<open>
  The key SQLite gives a new row of a table with an \<open>INTEGER PRIMARY KEY\<close>: one more than
  the largest key in the table, 1 in an empty table. When the largest key is the largest
  64-bit integer, SQLite tries keys at random and reports \<open>SQLITE_FULL\<close> when it finds
  none free; of these outcomes \<open>insert_instance\<close> below has the failure only.
\<close>

definition next_id :: "int list \<Rightarrow> int" where
  "next_id ks = (case ks of [] \<Rightarrow> 1 | k # ks' \<Rightarrow> fold max ks' k + 1)"

text \<open>
  \<open>INSERT\<close> of one pending object; the result is the generated primary key. The integer
  columns of the object are parameters of the statement.
\<close>

fun insert_instance :: "transient \<Rightarrow> int io" where
  "insert_instance (NewRecipe title cooking_time description views) s =
     (let k = next_id (map Recipe_id (recipes (tx s)));
          row = \<lparr>Recipe_id = k, Recipe_title = title, Recipe_cooking_time = cooking_time,
                 Recipe_description = description, Recipe_views = views\<rparr>
      in if \<not> list_all int64 [cooking_time, views] then (Inl OverflowError, s)
         else if \<not> int64 k then (Inl StorageError, s)
         else (case execute INSERT s of
                 (Inl e, s') \<Rightarrow> (Inl e, s')
               | (Inr _, s') \<Rightarrow>
                   (Inr k, s'\<lparr>tx := (tx s')\<lparr>recipes := recipes (tx s') @ [row]\<rparr>\<rparr>)))"
| "insert_instance (NewIngredient name quantity recipe_id) s =
     (let k = next_id (map Ingredient_id (ingredients (tx s)));
          row = \<lparr>Ingredient_id = k, Ingredient_name = name, Ingredient_quantity = quantity,
                 Ingredient_recipe_id = recipe_id\<rparr>
      in if \<not> list_all int64 [recipe_id] then (Inl OverflowError, s)
         else if \<not> int64 k then (Inl StorageError, s)
         else (case execute INSERT s of
                 (Inl e, s') \<Rightarrow> (Inl e, s')
               | (Inr _, s') \<Rightarrow>
                   (Inr k, s'\<lparr>tx := (tx s')\<lparr>ingredients := ingredients (tx s') @ [row]\<rparr>\<rparr>)))"

fun insert_all :: "transient list \<Rightarrow> int list io" where
  "insert_all [] s = (Inr [], s)"
| "insert_all (x # xs) s =
     (case insert_instance x s of
        (Inl e, s') \<Rightarrow> (Inl e, s')
      | (Inr k, s') \<Rightarrow>
          (case insert_all xs s' of
             (Inl e, s'') \<Rightarrow> (Inl e, s'')
           | (Inr ks, s'') \<Rightarrow> (Inr (k # ks), s'')))"

text \<open>\<open>UPDATE recipes SET views = v WHERE id = k\<close>, with the parameters \<open>v\<close> and \<open>k\<close>.\<close>

definition update_views :: "int \<times> int \<Rightarrow> unit io" where
  "update_views kv s =
     (if \<not> list_all int64 [snd kv, fst kv] then (Inl OverflowError, s)
      else (case execute UPDATE s of
              (Inl e, s') \<Rightarrow> (Inl e, s')
            | (Inr _, s') \<Rightarrow>
                (Inr (), s'\<lparr>tx := (tx s')\<lparr>recipes :=
                   map (\<lambda>r. if Recipe_id r = fst kv then r\<lparr>Recipe_views := snd kv\<rparr> else r)
                       (recipes (tx s'))\<rparr>\<rparr>)))"

fun update_all :: "(int \<times> int) list \<Rightarrow> unit io" where
  "update_all [] s = (Inr (), s)"
| "update_all (kv # kvs) s =
     (case update_views kv s of
        (Inl e, s') \<Rightarrow> (Inl e, s')
      | (Inr _, s') \<Rightarrow> update_all kvs s')"

text \<open>\<open>Session.add\<close>: the object waits in the session until the next flush.\<close>

definition add :: "transient \<Rightarrow> unit io" where
  "add x s = (Inr (), s\<lparr>new := new s @ [x]\<rparr>)"

text \<open>
  \<open>Session.flush\<close>: writes the pending objects, then the pending assignments, inside the
  open transaction. The result is the list of primary keys generated for the new objects.
\<close>

definition flush :: "int list io" where
  "flush s =
     (case insert_all (new s) (s\<lparr>new := []\<rparr>) of
        (Inl e, s') \<Rightarrow> (Inl e, s')
      | (Inr ks, s') \<Rightarrow>
          (case update_all (dirty s') (s'\<lparr>dirty := []\<rparr>) of
             (Inl e, s'') \<Rightarrow> (Inl e, s'')
           | (Inr _, s'') \<Rightarrow> (Inr ks, s'')))"

text \<open>\<open>Session.commit\<close>: flush, then make the transaction's content the stored one.\<close>

definition commit :: "unit io" where
  "commit = bind flush (\<lambda>_. bind (execute COMMIT) (\<lambda>_ s. (Inr (), s\<lparr>stored := tx s\<rparr>)))"

text \<open>\<open>Session.rollback\<close>: drops the transaction and everything pending.\<close>

definition rollback :: "AsyncSession \<Rightarrow> AsyncSession" where
  "rollback s = s\<lparr>tx := stored s, new := [], dirty := [], trace := trace s @ [ROLLBACK]\<rparr>"

text \<open>\<open>Session.close\<close>: releases the connection; nothing uncommitted survives.\<close>

definition close :: "AsyncSession \<Rightarrow> AsyncSession" where
  "close s = s\<lparr>tx := stored s, new := [], dirty := [], trace := trace s @ [CLOSE],
               closed := True\<rparr>"

text \<open>\<open>AsyncSessionLocal()\<close>: a fresh session on the database.\<close>

definition AsyncSessionLocal :: "nat option \<Rightarrow> Database \<Rightarrow> AsyncSession" where
  "AsyncSessionLocal b db =
     \<lparr>stored = db, tx = db, new = [], dirty = [], budget = b, trace = [], closed = False\<rparr>"

text \<open>
  \<open>get_db\<close>: the scope around an endpoint. \<open>try: yield session; commit\<close>,
  \<open>except Exception: rollback; raise\<close>, \<open>finally: close\<close>. The commit is inside the
  \<open>try\<close>, so its failure is handled like a failure of the endpoint.
\<close>

definition get_db :: "'a io \<Rightarrow> 'a io" where
  "get_db endpoint session =
     (case endpoint session of
        (Inr v, s1) \<Rightarrow>
          (case commit s1 of
             (Inr _, s2) \<Rightarrow> (Inr v, close s2)
           | (Inl e, s2) \<Rightarrow> (Inl e, close (rollback s2)))
      | (Inl e, s1) \<Rightarrow> (Inl e, close (rollback s1)))"

section \<open>schemas.py: the request and response contracts\<close>

record IngredientCreate =
  IngredientCreate_name :: str
  IngredientCreate_quantity :: str

record IngredientResponse =
  IngredientResponse_id :: int
  IngredientResponse_name :: str
  IngredientResponse_quantity :: str

record RecipeCreate =
  RecipeCreate_title :: str
  RecipeCreate_cooking_time :: int
  RecipeCreate_description :: str
  RecipeCreate_ingredients :: "IngredientCreate list"

record RecipeListResponse =
  RecipeListResponse_id :: int
  RecipeListResponse_title :: str
  RecipeListResponse_cooking_time :: int
  RecipeListResponse_views :: int

record RecipeDetailResponse =
  RecipeDetailResponse_id :: int
  RecipeDetailResponse_title :: str
  RecipeDetailResponse_cooking_time :: int
  RecipeDetailResponse_description :: str
  RecipeDetailResponse_views :: int
  RecipeDetailResponse_ingredients :: "IngredientResponse list"

text \<open>
  The \<open>Field\<close> constraints of \<open>IngredientBase\<close> and \<open>RecipeBase\<close>. Every class
  derived from them inherits the constraints: the two inputs and the two responses
  \<open>IngredientResponse\<close> and \<open>RecipeDetailResponse\<close>. \<open>RecipeListResponse\<close> derives
  from \<open>BaseModel\<close> and has none.
\<close>

definition IngredientBase :: "str \<Rightarrow> str \<Rightarrow> bool" where
  "IngredientBase name quantity \<longleftrightarrow>
     1 \<le> length name \<and> length name \<le> 255 \<and> 1 \<le> length quantity \<and> length quantity \<le> 100"

definition RecipeBase :: "str \<Rightarrow> int \<Rightarrow> str \<Rightarrow> bool" where
  "RecipeBase title cooking_time description \<longleftrightarrow>
     1 \<le> length title \<and> length title \<le> 255 \<and> 0 < cooking_time \<and> 10 \<le> length description"

text \<open>
  A \<open>str\<close> of a request is a sequence of Unicode scalar values: no surrogate and nothing
  above U+10FFFF.
\<close>

definition scalar_value :: "nat \<Rightarrow> bool" where
  "scalar_value c \<longleftrightarrow> c < 55296 \<or> (57343 < c \<and> c < 1114112)"

definition str_type :: "str \<Rightarrow> bool" where
  "str_type s = list_all scalar_value s"

text \<open>
  Validation of a request body of \<open>POST /recipes\<close> whose \<open>cooking_time\<close> is a JSON
  integer: the types of the fields and the constraints.
\<close>

definition RecipeCreate_valid :: "RecipeCreate \<Rightarrow> bool" where
  "RecipeCreate_valid d \<longleftrightarrow>
     str_type (RecipeCreate_title d) \<and> str_type (RecipeCreate_description d) \<and>
     list_all (\<lambda>i. str_type (IngredientCreate_name i) \<and> str_type (IngredientCreate_quantity i))
       (RecipeCreate_ingredients d) \<and>
     RecipeBase (RecipeCreate_title d) (RecipeCreate_cooking_time d) (RecipeCreate_description d) \<and>
     list_all (\<lambda>i. IngredientBase (IngredientCreate_name i) (IngredientCreate_quantity i))
       (RecipeCreate_ingredients d)"

text \<open>
  The field \<open>cooking_time: int\<close> is validated in pydantic's lax mode, which takes more than
  JSON integers: \<open>true\<close> and \<open>false\<close> count as 1 and 0, and a string is read as a
  number. How pydantic reads a string is not part of the repository: it is the parameter
  \<open>read\<close>. A JSON number with a fraction or an exponent is not modelled.
\<close>

datatype json = JInt int | JBool bool | JStr str

fun lax_int :: "(str \<Rightarrow> int option) \<Rightarrow> json \<Rightarrow> int option" where
  "lax_int read (JInt i) = Some i"
| "lax_int read (JBool b) = Some (if b then 1 else 0)"
| "lax_int read (JStr s) = read s"

text \<open>The body of \<open>POST /recipes\<close> as it arrives, and the \<open>RecipeCreate\<close> it becomes.\<close>

record RecipeCreateBody =
  Body_title :: str
  Body_cooking_time :: json
  Body_description :: str
  Body_ingredients :: "IngredientCreate list"

definition RecipeCreate_of :: "(str \<Rightarrow> int option) \<Rightarrow> RecipeCreateBody \<Rightarrow> RecipeCreate option" where
  "RecipeCreate_of read body =
     (case lax_int read (Body_cooking_time body) of
        None \<Rightarrow> None
      | Some i \<Rightarrow>
          Some \<lparr>RecipeCreate_title = Body_title body, RecipeCreate_cooking_time = i,
                RecipeCreate_description = Body_description body,
                RecipeCreate_ingredients = Body_ingredients body\<rparr>)"

text \<open>\<open>model_validate\<close> of each response class, reading the attributes of the row.\<close>

definition RecipeListResponse_model_validate :: "Recipe \<Rightarrow> RecipeListResponse" where
  "RecipeListResponse_model_validate r =
     \<lparr>RecipeListResponse_id = Recipe_id r, RecipeListResponse_title = Recipe_title r,
      RecipeListResponse_cooking_time = Recipe_cooking_time r,
      RecipeListResponse_views = Recipe_views r\<rparr>"

definition IngredientResponse_of :: "Ingredient \<Rightarrow> IngredientResponse" where
  "IngredientResponse_of i =
     \<lparr>IngredientResponse_id = Ingredient_id i, IngredientResponse_name = Ingredient_name i,
      IngredientResponse_quantity = Ingredient_quantity i\<rparr>"

definition RecipeDetailResponse_model_validate ::
    "Recipe \<Rightarrow> Ingredient list \<Rightarrow> error + RecipeDetailResponse" where
  "RecipeDetailResponse_model_validate r ings =
     (if RecipeBase (Recipe_title r) (Recipe_cooking_time r) (Recipe_description r) \<and>
         list_all (\<lambda>i. IngredientBase (Ingredient_name i) (Ingredient_quantity i)) ings
      then Inr \<lparr>RecipeDetailResponse_id = Recipe_id r, RecipeDetailResponse_title = Recipe_title r,
                RecipeDetailResponse_cooking_time = Recipe_cooking_time r,
                RecipeDetailResponse_description = Recipe_description r,
                RecipeDetailResponse_views = Recipe_views r,
                RecipeDetailResponse_ingredients = map IngredientResponse_of ings\<rparr>
      else Inl ValidationError)"

section \<open>routes.py: the queries\<close>

text \<open>
  \<open>Session.execute\<close>: flushes what is pending (autoflush), converts the integer
  parameters \<open>ps\<close> of the query, then runs the \<open>SELECT\<close> against the content the
  transaction sees.
\<close>

definition execute_query :: "int list \<Rightarrow> (Database \<Rightarrow> 'a) \<Rightarrow> 'a io" where
  "execute_query ps q =
     bind flush (\<lambda>_. bind (bind_params ps) (\<lambda>_.
     bind (execute SELECT) (\<lambda>_ s. (Inr (q (tx s)), s))))"

text \<open>
  \<open>.order_by(desc(Recipe.views), Recipe.cooking_time)\<close>. Rows equal in both keys keep
  their rowid order.
\<close>

definition order_by :: "Recipe list \<Rightarrow> Recipe list" where
  "order_by rs = sort_key (\<lambda>r. (- Recipe_views r, Recipe_cooking_time r)) rs"

text \<open>
  \<open>.offset(skip)\<close> and \<open>.limit(limit)\<close> as SQLite evaluates them: a negative offset
  skips nothing and a negative limit is no limit. Both are parameters of the query.
\<close>

definition offset :: "int \<Rightarrow> 'a list \<Rightarrow> 'a list" where
  "offset skip xs = drop (nat skip) xs"

definition limit :: "int \<Rightarrow> 'a list \<Rightarrow> 'a list" where
  "limit n xs = (if n < 0 then xs else take (nat n) xs)"

definition select_recipes :: "int \<Rightarrow> int \<Rightarrow> Recipe list io" where
  "select_recipes skip n =
     execute_query [n, skip] (\<lambda>db. limit n (offset skip (order_by (recipes db))))"

text \<open>
  \<open>select(Recipe).options(selectinload(Recipe.ingredients)).where(Recipe.id == recipe_id)\<close>:
  the rows with that key, and when there is one, a second \<open>SELECT\<close> for their ingredients.
\<close>

definition ingredients_of :: "int \<Rightarrow> Database \<Rightarrow> Ingredient list" where
  "ingredients_of k db = filter (\<lambda>i. Ingredient_recipe_id i = k) (ingredients db)"

definition select_recipe :: "int \<Rightarrow> (Recipe \<times> Ingredient list) list io" where
  "select_recipe recipe_id =
     bind (execute_query [recipe_id] (\<lambda>db. filter (\<lambda>r. Recipe_id r = recipe_id) (recipes db)))
       (\<lambda>rows.
          if rows = [] then return []
          else execute_query (map Recipe_id rows)
                 (\<lambda>db. map (\<lambda>r. (r, ingredients_of (Recipe_id r) db)) rows))"

fun scalar_one_or_none :: "'a list \<Rightarrow> 'a option io" where
  "scalar_one_or_none [] = return None"
| "scalar_one_or_none [x] = return (Some x)"
| "scalar_one_or_none (x # y # zs) = raise MultipleResultsFound"

text \<open>\<open>recipe.views += 1\<close>, written at the next flush.\<close>

definition set_views :: "int \<Rightarrow> int \<Rightarrow> unit io" where
  "set_views k v s = (Inr (), s\<lparr>dirty := dirty s @ [(k, v)]\<rparr>)"

text \<open>
  \<open>Session.refresh(recipe)\<close> reloads the columns of the row with the object's primary
  key, by one \<open>SELECT\<close>. For an object that was loaded with \<open>selectinload\<close> the
  ingredients follow by a second one, \<open>selectin_ingredients\<close>.
  \<open>refresh(recipe, attribute_names=["ingredients"])\<close> sends two: one for the row and
  one for the collection.
\<close>

definition refresh :: "int \<Rightarrow> Recipe io" where
  "refresh k =
     bind (execute_query [k] (\<lambda>db. filter (\<lambda>r. Recipe_id r = k) (recipes db))) (\<lambda>rows.
       case rows of [] \<Rightarrow> raise InvalidRequestError | r # _ \<Rightarrow> return r)"

definition selectin_ingredients :: "int \<Rightarrow> Ingredient list io" where
  "selectin_ingredients k = execute_query [k] (ingredients_of k)"

definition refresh_ingredients :: "int \<Rightarrow> Ingredient list io" where
  "refresh_ingredients k = bind (refresh k) (\<lambda>_. execute_query [k] (ingredients_of k))"

definition lift :: "error + 'a \<Rightarrow> 'a io" where
  "lift r s = (r, s)"

section \<open>routes.py: the endpoints\<close>

definition get_all_recipes :: "int \<Rightarrow> int \<Rightarrow> RecipeListResponse list io" where
  "get_all_recipes skip n =
     bind (select_recipes skip n) (\<lambda>recipes.
     return (map RecipeListResponse_model_validate recipes))"

text \<open>The \<open>detail\<close> of the 404: the f-string around \<open>recipe_id\<close>.\<close>

definition not_found_detail :: "int \<Rightarrow> str" where
  "not_found_detail recipe_id =
     [1056, 1077, 1094, 1077, 1087, 1090, 32, 1089, 32, 73, 68, 32] @ str_int recipe_id @
     [32, 1085, 1077, 32, 1085, 1072, 1081, 1076, 1077, 1085]"

text \<open>
  The object was loaded with \<open>selectinload\<close>, so its refresh reloads the ingredients with
  the columns.
\<close>

definition get_recipe_by_id :: "int \<Rightarrow> RecipeDetailResponse io" where
  "get_recipe_by_id recipe_id =
     bind (select_recipe recipe_id) (\<lambda>result.
     bind (scalar_one_or_none result) (\<lambda>recipe.
       case recipe of
         None \<Rightarrow> raise (HTTPException 404 (not_found_detail recipe_id))
       | Some (row, loaded) \<Rightarrow>
           bind (set_views (Recipe_id row) (Recipe_views row + 1)) (\<lambda>_.
           bind commit (\<lambda>_.
           bind (refresh (Recipe_id row)) (\<lambda>row'.
           bind (selectin_ingredients (Recipe_id row)) (\<lambda>ings.
           lift (RecipeDetailResponse_model_validate row' ings)))))))"

text \<open>The loop over \<open>recipe_data.ingredients\<close>.\<close>

fun add_ingredients :: "int \<Rightarrow> IngredientCreate list \<Rightarrow> unit io" where
  "add_ingredients k [] = return ()"
| "add_ingredients k (i # is) =
     bind (add (NewIngredient (IngredientCreate_name i) (IngredientCreate_quantity i) k))
       (\<lambda>_. add_ingredients k is)"

text \<open>
  \<open>new_recipe.id\<close> after the flush is the key generated for the object added last.
\<close>

definition create_recipe :: "RecipeCreate \<Rightarrow> RecipeDetailResponse io" where
  "create_recipe recipe_data =
     bind (add (NewRecipe (RecipeCreate_title recipe_data) (RecipeCreate_cooking_time recipe_data)
                  (RecipeCreate_description recipe_data) 0)) (\<lambda>_.
     bind flush (\<lambda>keys.
     bind (add_ingredients (last keys) (RecipeCreate_ingredients recipe_data)) (\<lambda>_.
     bind commit (\<lambda>_.
     bind (refresh (last keys)) (\<lambda>row.
     bind (refresh_ingredients (last keys)) (\<lambda>ings.
     lift (RecipeDetailResponse_model_validate row ings)))))))"

section \<open>The three routes\<close>

text \<open>
  One request: \<open>Depends(get_db)\<close> opens a session on the database, runs the endpoint in
  the scope and leaves the result, the database and the statements executed.
\<close>

definition Depends_get_db ::
    "'a io \<Rightarrow> nat option \<Rightarrow> Database \<Rightarrow> (error + 'a) \<times> Database \<times> statement list" where
  "Depends_get_db endpoint b db =
     (case get_db endpoint (AsyncSessionLocal b db) of (r, s) \<Rightarrow> (r, stored s, trace s))"

text \<open>\<open>GET /recipes\<close>, with \<open>skip: int = 0, limit: int = 100\<close>.\<close>

definition app_get_recipes ::
    "nat option \<Rightarrow> int option \<Rightarrow> int option \<Rightarrow> Database
       \<Rightarrow> (error + RecipeListResponse list) \<times> Database \<times> statement list" where
  "app_get_recipes b skip n db =
     Depends_get_db
       (get_all_recipes (case skip of None \<Rightarrow> 0 | Some k \<Rightarrow> k)
                        (case n of None \<Rightarrow> 100 | Some k \<Rightarrow> k)) b db"

text \<open>\<open>GET /recipes/{recipe_id}\<close>.\<close>

definition app_get_recipe ::
    "nat option \<Rightarrow> int \<Rightarrow> Database \<Rightarrow> (error + RecipeDetailResponse) \<times> Database \<times> statement list" where
  "app_get_recipe b recipe_id db = Depends_get_db (get_recipe_by_id recipe_id) b db"

text \<open>
  \<open>POST /recipes\<close>. A body that fails the validation of \<open>RecipeCreate\<close> is answered
  without the endpoint being called.
\<close>

definition app_post_recipes ::
    "nat option \<Rightarrow> RecipeCreate \<Rightarrow> Database
       \<Rightarrow> (error + RecipeDetailResponse) \<times> Database \<times> statement list" where
  "app_post_recipes b recipe_data db =
     (if RecipeCreate_valid recipe_data then Depends_get_db (create_recipe recipe_data) b db
      else (Inl RequestValidationError, db, []))"

text \<open>
  The same route on the body as it arrives: the lax validation of \<open>cooking_time\<close> comes
  first.
\<close>

definition app_post_recipes_body ::
    "(str \<Rightarrow> int option) \<Rightarrow> nat option \<Rightarrow> RecipeCreateBody \<Rightarrow> Database
       \<Rightarrow> (error + RecipeDetailResponse) \<times> Database \<times> statement list" where
  "app_post_recipes_body read b body db =
     (case RecipeCreate_of read body of
        None \<Rightarrow> (Inl RequestValidationError, db, [])
      | Some recipe_data \<Rightarrow> app_post_recipes b recipe_data db)"

section \<open>The storage engine's budget\<close>

text \<open>\<open>enough n b\<close>: the engine still executes \<open>n\<close> statements; \<open>spend n b\<close>: what is left after them.\<close>

definition enough :: "nat \<Rightarrow> nat option \<Rightarrow> bool" where
  "enough n b = (case b of None \<Rightarrow> True | Some k \<Rightarrow> n \<le> k)"

definition spend :: "nat \<Rightarrow> nat option \<Rightarrow> nat option" where
  "spend n b = map_option (\<lambda>k. k - n) b"

section \<open>What the endpoints write\<close>

text \<open>The database after \<open>UPDATE recipes SET views = v WHERE id = k\<close>.\<close>

definition bump :: "int \<Rightarrow> int \<Rightarrow> Database \<Rightarrow> Database" where
  "bump k v db = db\<lparr>recipes := map (\<lambda>r. if Recipe_id r = k then r\<lparr>Recipe_views := v\<rparr> else r) (recipes db)\<rparr>"

text \<open>
  The rows that the ingredients of one request become: consecutive keys from \<open>k\<close>, all
  referring to the recipe \<open>rid\<close>.
\<close>

fun ingredient_rows :: "int \<Rightarrow> int \<Rightarrow> IngredientCreate list \<Rightarrow> Ingredient list" where
  "ingredient_rows k rid [] = []"
| "ingredient_rows k rid (i # is) =
     \<lparr>Ingredient_id = k, Ingredient_name = IngredientCreate_name i,
      Ingredient_quantity = IngredientCreate_quantity i, Ingredient_recipe_id = rid\<rparr>
     # ingredient_rows (k + 1) rid is"

definition new_ingredients :: "int \<Rightarrow> IngredientCreate list \<Rightarrow> transient list" where
  "new_ingredients rid is =
     map (\<lambda>i. NewIngredient (IngredientCreate_name i) (IngredientCreate_quantity i) rid) is"

definition created_row :: "RecipeCreate \<Rightarrow> Database \<Rightarrow> Recipe" where
  "created_row d db =
     \<lparr>Recipe_id = next_id (map Recipe_id (recipes db)), Recipe_title = RecipeCreate_title d,
      Recipe_cooking_time = RecipeCreate_cooking_time d,
      Recipe_description = RecipeCreate_description d, Recipe_views = 0\<rparr>"

definition created :: "RecipeCreate \<Rightarrow> Database \<Rightarrow> Database" where
  "created d db =
     \<lparr>recipes = recipes db @ [created_row d db],
      ingredients = ingredients db @
        ingredient_rows (next_id (map Ingredient_id (ingredients db)))
          (next_id (map Recipe_id (recipes db))) (RecipeCreate_ingredients d)\<rparr>"

text \<open>
  There is room for the request: its cooking time is a 64-bit integer, and so are the keys
  that the new recipe and its ingredients get.
\<close>

definition room :: "RecipeCreate \<Rightarrow> Database \<Rightarrow> bool" where
  "room d db \<longleftrightarrow>
     int64 (RecipeCreate_cooking_time d) \<and>
     int64 (next_id (map Recipe_id (recipes db))) \<and>
     list_all (\<lambda>i. int64 (Ingredient_id i))
       (ingredient_rows (next_id (map Ingredient_id (ingredients db)))
          (next_id (map Recipe_id (recipes db))) (RecipeCreate_ingredients d))"

section \<open>The constraints of the schema\<close>

text \<open>
  What \<open>database.py\<close> and \<open>schemas.py\<close> declare of the stored rows: \<open>Recipe.id\<close> is a
  primary key, \<open>Ingredient.recipe_id\<close> a foreign key, and every row went through the
  constraints of \<open>RecipeBase\<close> or \<open>IngredientBase\<close> when it was created.
\<close>

definition Database_ok :: "Database \<Rightarrow> bool" where
  "Database_ok db \<longleftrightarrow>
     distinct (map Recipe_id (recipes db)) \<and>
     list_all (\<lambda>i. Ingredient_recipe_id i \<in> set (map Recipe_id (recipes db))) (ingredients db) \<and>
     list_all (\<lambda>r. RecipeBase (Recipe_title r) (Recipe_cooking_time r) (Recipe_description r))
       (recipes db) \<and>
     list_all (\<lambda>i. IngredientBase (Ingredient_name i) (Ingredient_quantity i)) (ingredients db)"

section \<open>Observations\<close>

definition database_after :: "'a \<times> Database \<times> statement list \<Rightarrow> Database" where
  "database_after out = fst (snd out)"

text \<open>The \<open>views\<close> of the response, when there is one.\<close>

definition response_views :: "(error + RecipeDetailResponse) \<times> 'a \<Rightarrow> int option" where
  "response_views out =
     (case fst out of Inl e \<Rightarrow> None | Inr d \<Rightarrow> Some (RecipeDetailResponse_views d))"

text \<open>The stored \<open>views\<close> of the rows with key \<open>k\<close>.\<close>

definition stored_views :: "Database \<Rightarrow> int \<Rightarrow> int list" where
  "stored_views db k = map Recipe_views (filter (\<lambda>r. Recipe_id r = k) (recipes db))"

text \<open>\<open>n\<close> requests \<open>GET /recipes/k\<close> one after the other: the responses and the database left.\<close>

fun get_recipe_times ::
    "nat \<Rightarrow> int \<Rightarrow> Database \<Rightarrow> ((error + RecipeDetailResponse) \<times> Database \<times> statement list) list \<times> Database" where
  "get_recipe_times 0 k db = ([], db)"
| "get_recipe_times (Suc n) k db =
     (case get_recipe_times n k (database_after (app_get_recipe None k db)) of
        (outs, db') \<Rightarrow> (app_get_recipe None k db # outs, db'))"

text \<open>Any request to the service, and the database it leaves.\<close>

datatype request =
  ListRecipes "int option" "int option"
| GetRecipe int
| CreateRecipe RecipeCreate

fun handle :: "nat option \<Rightarrow> request \<Rightarrow> Database \<Rightarrow> Database" where
  "handle b (ListRecipes skip n) db = database_after (app_get_recipes b skip n db)"
| "handle b (GetRecipe k) db = database_after (app_get_recipe b k db)"
| "handle b (CreateRecipe d) db = database_after (app_post_recipes b d db)"

text \<open>Reading a decimal numeral back.\<close>

definition undigits :: "str \<Rightarrow> nat" where
  "undigits ds = foldl (\<lambda>a d. 10 * a + (d - 48)) 0 ds"

text \<open>The number of recipes in the response, when there is one.\<close>

definition response_length :: "(error + 'r list) \<times> 'a \<Rightarrow> nat" where
  "response_length out = (case fst out of Inl e \<Rightarrow> 0 | Inr rs \<Rightarrow> length rs)"

section \<open>Example data\<close>

definition empty_db :: Database where
  "empty_db = \<lparr>recipes = [], ingredients = []\<rparr>"

definition salt :: IngredientCreate where
  "salt = \<lparr>IngredientCreate_name = u ''Salt'', IngredientCreate_quantity = u ''1 tsp''\<rparr>"

definition soup :: RecipeCreate where
  "soup = \<lparr>RecipeCreate_title = u ''Borscht'', RecipeCreate_cooking_time = 60,
           RecipeCreate_description = u ''Traditional soup with beets and cabbage'',
           RecipeCreate_ingredients = [salt]\<rparr>"

text \<open>The same request with a description of five characters.\<close>

definition terse :: RecipeCreate where
  "terse = soup\<lparr>RecipeCreate_description := u ''Short''\<rparr>"

text \<open>A cookbook with two recipes, the second viewed three times.\<close>

definition borscht :: Recipe where
  "borscht =
     \<lparr>Recipe_id = 1, Recipe_title = u ''Borscht'', Recipe_cooking_time = 60,
      Recipe_description = u ''Traditional soup with beets and cabbage'', Recipe_views = 0\<rparr>"

definition omelette :: Recipe where
  "omelette =
     \<lparr>Recipe_id = 2, Recipe_title = u ''Omelette'', Recipe_cooking_time = 10,
      Recipe_description = u ''Eggs beaten and fried'', Recipe_views = 3\<rparr>"

definition cookbook :: Database where
  "cookbook =
     \<lparr>recipes = [borscht, omelette],
      ingredients =
        [\<lparr>Ingredient_id = 1, Ingredient_name = u ''Salt'', Ingredient_quantity = u ''1 tsp'',
          Ingredient_recipe_id = 1\<rparr>,
         \<lparr>Ingredient_id = 2, Ingredient_name = u ''Egg'', Ingredient_quantity = u ''3 pcs'',
          Ingredient_recipe_id = 2\<rparr>]\<rparr>"

text \<open>The omelette after \<open>2 ^ 63 - 1\<close> views, the largest number the column holds.\<close>

definition bestseller :: Recipe where
  "bestseller = omelette\<lparr>Recipe_views := 9223372036854775807\<rparr>"

definition library :: Database where
  "library = cookbook\<lparr>recipes := [borscht, bestseller]\<rparr>"

text \<open>
  A reader of strings for the examples: the plain decimal numerals, which pydantic reads
  among others.
\<close>

definition decimal :: "str \<Rightarrow> int option" where
  "decimal s =
     (if s \<noteq> [] \<and> list_all (\<lambda>c. 48 \<le> c \<and> c \<le> 57) s then Some (int (undigits s)) else None)"

text \<open>The body of the soup with any JSON value as its cooking time.\<close>

definition soup_body :: "json \<Rightarrow> RecipeCreateBody" where
  "soup_body t =
     \<lparr>Body_title = u ''Borscht'', Body_cooking_time = t,
      Body_description = u ''Traditional soup with beets and cabbage'',
      Body_ingredients = [salt]\<rparr>"

section \<open>Evaluating one request\<close>

lemma enough_spend [simp]: "0 < m \<Longrightarrow> enough m (spend n b) = enough (m + n) b"
  by (cases b) (auto simp: enough_def spend_def)

lemma spend_spend [simp]: "spend m (spend n b) = spend (n + m) b"
  by (cases b) (auto simp: spend_def)

lemma enough_None [simp]: "enough n None" by (simp add: enough_def)

lemma spend_None [simp]: "spend n None = None" by (simp add: spend_def)

lemma execute_eq:
  "execute st s =
     (if enough 1 (budget s)
      then (Inr (), s\<lparr>budget := spend 1 (budget s), trace := trace s @ [st]\<rparr>)
      else (Inl StorageError, s))"
  by (cases s) (auto simp: execute_def enough_def spend_def split: option.splits nat.splits)

lemmas io_defs = bind_def return_def raise_def lift_def flush_def commit_def execute_query_def
  bind_params_def execute_eq rollback_def close_def get_db_def AsyncSessionLocal_def Depends_get_db_def add_def set_views_def
  update_views_def

lemma enough_SucD: "enough (Suc n) b \<Longrightarrow> enough n b"
  by (cases b) (auto simp: enough_def)

lemma app_get_recipes_eq:
  "app_get_recipes b skip n db =
     (if \<not> (int64 (case n of None \<Rightarrow> 100 | Some k \<Rightarrow> k) \<and>
             int64 (case skip of None \<Rightarrow> 0 | Some k \<Rightarrow> k))
      then (Inl OverflowError, db, [ROLLBACK, CLOSE])
      else if \<not> enough 1 b then (Inl StorageError, db, [ROLLBACK, CLOSE])
      else if \<not> enough 2 b then (Inl StorageError, db, [SELECT, ROLLBACK, CLOSE])
      else (Inr (map RecipeListResponse_model_validate
                 (limit (case n of None \<Rightarrow> 100 | Some k \<Rightarrow> k)
                    (offset (case skip of None \<Rightarrow> 0 | Some k \<Rightarrow> k) (order_by (recipes db))))),
            db, [SELECT, COMMIT, CLOSE]))"
  by (auto simp: app_get_recipes_def get_all_recipes_def select_recipes_def io_defs eval_nat_numeral
      dest: enough_SucD)

lemma filter_bump:
  "filter (\<lambda>r. Recipe_id r = k) (map (\<lambda>r. if Recipe_id r = k then r\<lparr>Recipe_views := v\<rparr> else r) rs)
     = map (\<lambda>r. r\<lparr>Recipe_views := v\<rparr>) (filter (\<lambda>r. Recipe_id r = k) rs)"
  by (induction rs) auto

lemma filter_key_all: "filter (\<lambda>r. Recipe_id r = k) rs = ys \<Longrightarrow> \<forall>y \<in> set ys. Recipe_id y = k"
  by auto

lemma app_get_recipe_overflow:
  assumes "\<not> int64 k"
  shows "app_get_recipe b k db = (Inl OverflowError, db, [ROLLBACK, CLOSE])"
  using assms
  by (simp add: app_get_recipe_def get_recipe_by_id_def select_recipe_def io_defs)

lemma app_get_recipe_missing:
  assumes "int64 k" and "filter (\<lambda>r. Recipe_id r = k) (recipes db) = []"
  shows "app_get_recipe b k db =
     (if \<not> enough 1 b then (Inl StorageError, db, [ROLLBACK, CLOSE])
      else (Inl (HTTPException 404 (not_found_detail k)), db, [SELECT, ROLLBACK, CLOSE]))"
  using assms
  by (auto simp: app_get_recipe_def get_recipe_by_id_def select_recipe_def io_defs eval_nat_numeral
      dest: enough_SucD)

lemma app_get_recipe_multiple:
  assumes "int64 k" and "filter (\<lambda>r. Recipe_id r = k) (recipes db) = x # y # zs"
  shows "app_get_recipe b k db =
     (if \<not> enough 1 b then (Inl StorageError, db, [ROLLBACK, CLOSE])
      else if \<not> enough 2 b then (Inl StorageError, db, [SELECT, ROLLBACK, CLOSE])
      else (Inl MultipleResultsFound, db, [SELECT, SELECT, ROLLBACK, CLOSE]))"
proof -
  have ids: "list_all int64 (map Recipe_id (x # y # zs))"
    using filter_key_all [OF assms(2)] assms(1) by (simp add: list_all_iff)
  show ?thesis
    using assms ids
    by (auto simp: app_get_recipe_def get_recipe_by_id_def select_recipe_def io_defs eval_nat_numeral
        dest: enough_SucD)
qed

lemma app_get_recipe_found:
  assumes "int64 k" and "filter (\<lambda>r. Recipe_id r = k) (recipes db) = [row]"
    and "int64 (Recipe_views row + 1)"
  shows "app_get_recipe b k db =
     (if \<not> enough 1 b then (Inl StorageError, db, [ROLLBACK, CLOSE])
      else if \<not> enough 2 b then (Inl StorageError, db, [SELECT, ROLLBACK, CLOSE])
      else if \<not> enough 3 b then (Inl StorageError, db, [SELECT, SELECT, ROLLBACK, CLOSE])
      else if \<not> enough 4 b then (Inl StorageError, db, [SELECT, SELECT, UPDATE, ROLLBACK, CLOSE])
      else if \<not> enough 5 b then
        (Inl StorageError, bump k (Recipe_views row + 1) db,
         [SELECT, SELECT, UPDATE, COMMIT, ROLLBACK, CLOSE])
      else if \<not> enough 6 b then
        (Inl StorageError, bump k (Recipe_views row + 1) db,
         [SELECT, SELECT, UPDATE, COMMIT, SELECT, ROLLBACK, CLOSE])
      else (case RecipeDetailResponse_model_validate (row\<lparr>Recipe_views := Recipe_views row + 1\<rparr>)
                   (ingredients_of k db) of
              Inl e \<Rightarrow> (Inl e, bump k (Recipe_views row + 1) db,
                        [SELECT, SELECT, UPDATE, COMMIT, SELECT, SELECT, ROLLBACK, CLOSE])
            | Inr d \<Rightarrow>
                if \<not> enough 7 b then
                  (Inl StorageError, bump k (Recipe_views row + 1) db,
                   [SELECT, SELECT, UPDATE, COMMIT, SELECT, SELECT, ROLLBACK, CLOSE])
                else (Inr d, bump k (Recipe_views row + 1) db,
                      [SELECT, SELECT, UPDATE, COMMIT, SELECT, SELECT, COMMIT, CLOSE])))"
proof -
  have k: "Recipe_id row = k"
    using filter_key_all [OF assms(2)] by simp
  show ?thesis
    using assms k
    by (auto simp: app_get_recipe_def get_recipe_by_id_def select_recipe_def io_defs eval_nat_numeral
        refresh_def selectin_ingredients_def filter_bump bump_def ingredients_of_def
        split: sum.splits  dest: enough_SucD)
qed

lemma app_get_recipe_full:
  assumes "int64 k" and "filter (\<lambda>r. Recipe_id r = k) (recipes db) = [row]"
    and "\<not> int64 (Recipe_views row + 1)"
  shows "app_get_recipe b k db =
     (if \<not> enough 1 b then (Inl StorageError, db, [ROLLBACK, CLOSE])
      else if \<not> enough 2 b then (Inl StorageError, db, [SELECT, ROLLBACK, CLOSE])
      else (Inl OverflowError, db, [SELECT, SELECT, ROLLBACK, CLOSE]))"
proof -
  have k: "Recipe_id row = k"
    using filter_key_all [OF assms(2)] by simp
  show ?thesis
    using assms k
    by (auto simp: app_get_recipe_def get_recipe_by_id_def select_recipe_def io_defs eval_nat_numeral
        dest: enough_SucD)
qed

lemma fold_max_ge: "(k::int) \<le> fold max ks k"
  by (induction ks arbitrary: k) (auto intro: order_trans [OF max.cobounded2])

lemma fold_max_ge_all: "x \<in> set ks \<Longrightarrow> (x::int) \<le> fold max ks k"
proof (induction ks arbitrary: k)
  case Nil
  then show ?case by simp
next
  case (Cons a ks)
  then show ?case
    using fold_max_ge [of "max a k" ks] by auto
qed

lemma next_id_greater:
  assumes "k \<in> set ks"
  shows "k < next_id ks"
proof (cases ks)
  case Nil
  then show ?thesis using assms by simp
next
  case (Cons a as)
  from assms have "k = a \<or> k \<in> set as" using Cons by simp
  then have "k \<le> fold max as a"
    using fold_max_ge [of a as] fold_max_ge_all [of k as a] by auto
  then show ?thesis using Cons by (simp add: next_id_def)
qed

lemma next_id_fresh: "next_id ks \<notin> set ks"
  using next_id_greater by blast

lemma next_id_snoc: "next_id (ks @ [next_id ks]) = next_id ks + 1"
proof (cases ks)
  case Nil
  then show ?thesis by (simp add: next_id_def)
next
  case (Cons k ks')
  then show ?thesis by (simp add: next_id_def)
qed

lemma add_ingredients_eq:
  "add_ingredients k is s =
     (Inr (), s\<lparr>new := new s @ map (\<lambda>i. NewIngredient (IngredientCreate_name i)
                                        (IngredientCreate_quantity i) k) is\<rparr>)"
  by (induction "is" arbitrary: s) (simp_all add: return_def bind_def add_def)

lemma length_ingredient_rows [simp]: "length (ingredient_rows k rid is) = length is"
  by (induction "is" arbitrary: k) simp_all

lemma spend_0 [simp]: "spend 0 b = b"
  by (cases b) (simp_all add: spend_def)

lemma enough_0 [simp]: "enough 0 b"
  by (cases b) (simp_all add: enough_def)

lemma insert_all_ingredients_ok:
  "enough (length is) (budget s) \<Longrightarrow> int64 rid \<Longrightarrow>
   list_all (\<lambda>i. int64 (Ingredient_id i))
     (ingredient_rows (next_id (map Ingredient_id (ingredients (tx s)))) rid is) \<Longrightarrow>
   insert_all (new_ingredients rid is) s =
     (Inr (map Ingredient_id
             (ingredient_rows (next_id (map Ingredient_id (ingredients (tx s)))) rid is)),
      s\<lparr>tx := (tx s)\<lparr>ingredients := ingredients (tx s) @
             ingredient_rows (next_id (map Ingredient_id (ingredients (tx s)))) rid is\<rparr>,
        budget := spend (length is) (budget s),
        trace := trace s @ replicate (length is) INSERT\<rparr>)"
proof (induction "is" arbitrary: s)
  case Nil
  then show ?case by (simp add: new_ingredients_def)
next
  case (Cons i "is")
  have e1: "enough 1 (budget s)" and en: "enough (length is) (spend 1 (budget s))"
    using Cons.prems(1) by (cases "budget s"; simp add: enough_def spend_def)+
  have k: "int64 (next_id (map Ingredient_id (ingredients (tx s))))"
    and ks: "list_all (\<lambda>i. int64 (Ingredient_id i))
               (ingredient_rows (next_id (map Ingredient_id (ingredients (tx s))) + 1) rid is)"
    using Cons.prems(3) by simp_all
  show ?case
    using e1 en k ks Cons.prems(2) Cons.IH
    by (simp add: new_ingredients_def execute_eq next_id_snoc Let_def replicate_append_same)
qed

lemma insert_all_ingredients_fail:
  "\<not> enough (length is) (budget s) \<Longrightarrow> int64 rid \<Longrightarrow>
   list_all (\<lambda>i. int64 (Ingredient_id i))
     (ingredient_rows (next_id (map Ingredient_id (ingredients (tx s)))) rid is) \<Longrightarrow>
   \<exists>s'. insert_all (new_ingredients rid is) s = (Inl StorageError, s') \<and>
        stored s' = stored s \<and>
        trace s' = trace s @ replicate (the (budget s)) INSERT"
proof (induction "is" arbitrary: s)
  case Nil
  then show ?case by simp
next
  case (Cons i "is")
  have k: "int64 (next_id (map Ingredient_id (ingredients (tx s))))"
    and ks: "list_all (\<lambda>i. int64 (Ingredient_id i))
               (ingredient_rows (next_id (map Ingredient_id (ingredients (tx s))) + 1) rid is)"
    using Cons.prems(3) by simp_all
  show ?case
  proof (cases "enough 1 (budget s)")
    case False
    then have "budget s = Some 0" by (cases "budget s") (auto simp: enough_def)
    then show ?thesis
      using k Cons.prems(2) by (simp add: new_ingredients_def execute_eq enough_def)
  next
    case True
    let ?s1 = "s\<lparr>budget := spend 1 (budget s), trace := trace s @ [INSERT],
                  tx := (tx s)\<lparr>ingredients := ingredients (tx s) @
                    [\<lparr>Ingredient_id = next_id (map Ingredient_id (ingredients (tx s))),
                      Ingredient_name = IngredientCreate_name i,
                      Ingredient_quantity = IngredientCreate_quantity i,
                      Ingredient_recipe_id = rid\<rparr>]\<rparr>\<rparr>"
    from True Cons.prems(1) obtain j where j: "budget s = Some (Suc j)" and jn: "j < length is"
      by (cases "budget s") (auto simp: enough_def Suc_le_eq elim: lessE)
    then have b1: "\<not> enough (length is) (budget ?s1)" by (simp add: enough_def spend_def)
    have ks1: "list_all (\<lambda>i. int64 (Ingredient_id i))
                 (ingredient_rows (next_id (map Ingredient_id (ingredients (tx ?s1)))) rid is)"
      using ks by (simp add: next_id_snoc)
    from Cons.IH [OF b1 Cons.prems(2) ks1] obtain s' where
      s': "insert_all (new_ingredients rid is) ?s1 = (Inl StorageError, s')"
          "stored s' = stored s" "trace s' = trace ?s1 @ replicate (the (budget ?s1)) INSERT"
      by auto
    have "insert_all (new_ingredients rid (i # is)) s = (Inl StorageError, s')"
      using True k Cons.prems(2) s'(1) by (simp add: new_ingredients_def execute_eq Let_def)
    moreover have "trace s' = trace s @ replicate (the (budget s)) INSERT"
      using s'(3) j by (simp add: spend_def)
    ultimately show ?thesis using s'(2) by blast
  qed
qed

lemma execute_stored [simp]: "stored (snd (execute st s)) = stored s"
  by (simp add: execute_eq)

lemma insert_instance_stored [simp]: "stored (snd (insert_instance x s)) = stored s"
  by (cases x) (simp_all add: execute_eq Let_def)

lemma insert_all_stored [simp]: "stored (snd (insert_all xs s)) = stored s"
proof (induction xs arbitrary: s)
  case Nil
  then show ?case by simp
next
  case (Cons x xs)
  show ?case
  proof (cases "insert_instance x s")
    case (Pair r s')
    then have s': "stored s' = stored s" using insert_instance_stored [of x s] by simp
    show ?thesis
    proof (cases r)
      case (Inl e)
      then show ?thesis using Pair s' by simp
    next
      case (Inr k)
      then show ?thesis
        using Pair s' Cons.IH [of s'] by (cases "insert_all xs s'") (auto split: sum.splits)
    qed
  qed
qed

lemma insert_all_ingredients_full:
  "\<not> list_all (\<lambda>i. int64 (Ingredient_id i))
       (ingredient_rows (next_id (map Ingredient_id (ingredients (tx s)))) rid is) \<Longrightarrow>
   \<exists>e s'. insert_all (new_ingredients rid is) s = (Inl e, s') \<and> stored s' = stored s"
proof (induction "is" arbitrary: s)
  case Nil
  then show ?case by simp
next
  case (Cons i "is")
  let ?k = "next_id (map Ingredient_id (ingredients (tx s)))"
  show ?case
  proof (cases "int64 rid \<and> int64 ?k \<and> enough 1 (budget s)")
    case False
    then show ?thesis
      by (auto simp: new_ingredients_def execute_eq Let_def)
  next
    case True
    let ?s1 = "s\<lparr>budget := spend 1 (budget s), trace := trace s @ [INSERT],
                  tx := (tx s)\<lparr>ingredients := ingredients (tx s) @
                    [\<lparr>Ingredient_id = ?k,
                      Ingredient_name = IngredientCreate_name i,
                      Ingredient_quantity = IngredientCreate_quantity i,
                      Ingredient_recipe_id = rid\<rparr>]\<rparr>\<rparr>"
    have "\<not> list_all (\<lambda>i. int64 (Ingredient_id i))
             (ingredient_rows (next_id (map Ingredient_id (ingredients (tx ?s1)))) rid is)"
      using Cons.prems True by (simp add: next_id_snoc)
    from Cons.IH [OF this] obtain e s' where
      s': "insert_all (new_ingredients rid is) ?s1 = (Inl e, s')" "stored s' = stored s"
      by auto
    have "insert_all (new_ingredients rid (i # is)) s = (Inl e, s')"
      using True s'(1) by (simp add: new_ingredients_def execute_eq Let_def)
    then show ?thesis using s'(2) by blast
  qed
qed

lemma filter_next_id [simp]:
  "filter (\<lambda>r. Recipe_id r = next_id (map Recipe_id rs)) rs = []"
proof -
  have "\<forall>r \<in> set rs. Recipe_id r \<noteq> next_id (map Recipe_id rs)"
    using next_id_fresh [of "map Recipe_id rs"] by force
  then show ?thesis by (simp add: filter_empty_conv)
qed

lemma enough_mono: "enough n b \<Longrightarrow> m \<le> n \<Longrightarrow> enough m b"
  by (cases b) (auto simp: enough_def)

lemma enough_spend_Suc:
  "enough (Suc 0) b \<Longrightarrow> enough m (spend (Suc 0) b) = enough (Suc m) b"
  by (cases b) (auto simp: enough_def spend_def)

lemma last_replicate_INSERT [simp]: "replicate n INSERT @ [INSERT] = INSERT # replicate n INSERT"
  by (simp add: replicate_append_same)

lemma app_post_recipes_late:
  assumes "RecipeCreate_valid d" and "room d db"
    and "enough (Suc (Suc (length (RecipeCreate_ingredients d)))) b"
  shows "app_post_recipes b d db =
     (if \<not> enough (Suc (Suc (Suc (length (RecipeCreate_ingredients d))))) b then
        (Inl StorageError, created d db,
         replicate (Suc (length (RecipeCreate_ingredients d))) INSERT @ [COMMIT, ROLLBACK, CLOSE])
      else if \<not> enough (Suc (Suc (Suc (Suc (length (RecipeCreate_ingredients d)))))) b then
        (Inl StorageError, created d db,
         replicate (Suc (length (RecipeCreate_ingredients d))) INSERT @
           [COMMIT, SELECT, ROLLBACK, CLOSE])
      else if \<not> enough (Suc (Suc (Suc (Suc (Suc (length (RecipeCreate_ingredients d))))))) b then
        (Inl StorageError, created d db,
         replicate (Suc (length (RecipeCreate_ingredients d))) INSERT @
           [COMMIT, SELECT, SELECT, ROLLBACK, CLOSE])
      else (case RecipeDetailResponse_model_validate (created_row d db)
                   (ingredients_of (Recipe_id (created_row d db)) (created d db)) of
              Inl e \<Rightarrow>
                (Inl e, created d db,
                 replicate (Suc (length (RecipeCreate_ingredients d))) INSERT @
                   [COMMIT, SELECT, SELECT, SELECT, ROLLBACK, CLOSE])
            | Inr r \<Rightarrow>
                if \<not> enough (Suc (Suc (Suc (Suc (Suc (Suc (length (RecipeCreate_ingredients d)))))))) b
                then (Inl StorageError, created d db,
                      replicate (Suc (length (RecipeCreate_ingredients d))) INSERT @
                        [COMMIT, SELECT, SELECT, SELECT, ROLLBACK, CLOSE])
                else (Inr r, created d db,
                      replicate (Suc (length (RecipeCreate_ingredients d))) INSERT @
                        [COMMIT, SELECT, SELECT, SELECT, COMMIT, CLOSE])))"
proof -
  have e1: "enough (Suc 0) b" and e2: "enough (Suc (length (RecipeCreate_ingredients d))) b"
    using assms(3) by (auto elim: enough_mono)
  have r: "int64 (RecipeCreate_cooking_time d)" "int64 (next_id (map Recipe_id (recipes db)))"
    "list_all (\<lambda>i. int64 (Ingredient_id i))
       (ingredient_rows (next_id (map Ingredient_id (ingredients db)))
          (next_id (map Recipe_id (recipes db))) (RecipeCreate_ingredients d))"
    using assms(2) by (simp_all add: room_def)
  have z: "int64 0" by (simp add: int64_def)
  show ?thesis
    using assms(1,3) e1 e2 r z
    by (auto simp: app_post_recipes_def create_recipe_def io_defs add_ingredients_eq
        new_ingredients_def [symmetric] insert_all_ingredients_ok enough_spend_Suc
        refresh_def refresh_ingredients_def created_def created_row_def ingredients_of_def Let_def
        split: sum.splits dest: enough_SucD)
qed

lemma app_post_recipes_early:
  assumes v: "RecipeCreate_valid d" and r: "room d db"
    and b: "\<not> enough (Suc (Suc (length (RecipeCreate_ingredients d)))) b"
  shows "app_post_recipes b d db =
           (Inl StorageError, db, replicate (the b) INSERT @ [ROLLBACK, CLOSE])"
proof -
  have r: "int64 (RecipeCreate_cooking_time d)" "int64 (next_id (map Recipe_id (recipes db)))"
    "list_all (\<lambda>i. int64 (Ingredient_id i))
       (ingredient_rows (next_id (map Ingredient_id (ingredients db)))
          (next_id (map Recipe_id (recipes db))) (RecipeCreate_ingredients d))"
    using r by (simp_all add: room_def)
  have z: "int64 0" by (simp add: int64_def)
  from b obtain k where k: "b = Some k" "k \<le> Suc (length (RecipeCreate_ingredients d))"
    by (cases b) (auto simp: enough_def)
  consider "k = 0" | j where "k = Suc j" "j < length (RecipeCreate_ingredients d)"
    | "k = Suc (length (RecipeCreate_ingredients d))"
    using k(2) by (cases k) (auto simp: le_Suc_eq)
  then show ?thesis
  proof cases
    case 1
    then show ?thesis
      using v k(1) r z by (simp add: app_post_recipes_def create_recipe_def io_defs enough_def)
  next
    case 2
    let ?rid = "next_id (map Recipe_id (recipes db))"
    let ?s = "\<lparr>stored = db, tx = db\<lparr>recipes := recipes db @ [created_row d db]\<rparr>, new = [],
               dirty = [], budget = Some j, trace = [INSERT], closed = False\<rparr>"
    have "\<not> enough (length (RecipeCreate_ingredients d)) (budget ?s)"
      using 2 by (simp add: enough_def)
    moreover have "list_all (\<lambda>i. int64 (Ingredient_id i))
       (ingredient_rows (next_id (map Ingredient_id (ingredients (tx ?s)))) ?rid
          (RecipeCreate_ingredients d))"
      using r(3) by simp
    ultimately obtain s' where
      s': "insert_all (new_ingredients ?rid (RecipeCreate_ingredients d)) ?s = (Inl StorageError, s')"
          "stored s' = db" "trace s' = INSERT # replicate j INSERT"
      using insert_all_ingredients_fail [of "RecipeCreate_ingredients d" ?s ?rid] r(2) by auto
    show ?thesis
      using v k(1) 2 s' r z
      by (simp add: app_post_recipes_def create_recipe_def io_defs add_ingredients_eq
          new_ingredients_def [symmetric] enough_def spend_def created_row_def Let_def)
  next
    case 3
    then have e: "enough (length (RecipeCreate_ingredients d)) (spend (Suc 0) b)"
      "\<not> enough (Suc (length (RecipeCreate_ingredients d))) (spend (Suc 0) b)"
      "enough (Suc 0) b"
      using k(1) by (simp_all add: enough_def spend_def)
    show ?thesis
      using v k(1) 3 e r z
      by (simp add: app_post_recipes_def create_recipe_def io_defs add_ingredients_eq
          new_ingredients_def [symmetric] insert_all_ingredients_ok Let_def)
  qed
qed

lemma app_post_recipes_full:
  assumes v: "RecipeCreate_valid d" and r: "\<not> room d db"
  shows "\<exists>e t. app_post_recipes b d db = (Inl e, db, t)"
proof -
  have z: "int64 0" by (simp add: int64_def)
  let ?rid = "next_id (map Recipe_id (recipes db))"
  show ?thesis
  proof (cases "int64 (RecipeCreate_cooking_time d) \<and> int64 ?rid \<and> enough (Suc 0) b")
    case False
    then show ?thesis
      using v z by (auto simp: app_post_recipes_def create_recipe_def io_defs Let_def)
  next
    case True
    let ?s = "\<lparr>stored = db, tx = db\<lparr>recipes := recipes db @ [created_row d db]\<rparr>, new = [],
               dirty = [], budget = spend (Suc 0) b, trace = [INSERT], closed = False\<rparr>"
    have "\<not> list_all (\<lambda>i. int64 (Ingredient_id i))
       (ingredient_rows (next_id (map Ingredient_id (ingredients (tx ?s)))) ?rid
          (RecipeCreate_ingredients d))"
      using r True by (simp add: room_def)
    from insert_all_ingredients_full [OF this] obtain e s' where
      s': "insert_all (new_ingredients ?rid (RecipeCreate_ingredients d)) ?s = (Inl e, s')"
          "stored s' = db"
      by auto
    show ?thesis
      using v True s' z
      by (simp add: app_post_recipes_def create_recipe_def io_defs add_ingredients_eq
          new_ingredients_def [symmetric] created_row_def Let_def)
  qed
qed

lemma distinct_filter_key:
  "distinct (map f xs) \<Longrightarrow> x \<in> set xs \<Longrightarrow> filter (\<lambda>y. f y = f x) xs = [x]"
proof (induction xs)
  case Nil
  then show ?case by simp
next
  case (Cons a xs)
  show ?case
  proof (cases "a = x")
    case True
    have "f x \<notin> f ` set xs" using Cons.prems(1) True by simp
    then have "\<forall>y \<in> set xs. f y \<noteq> f x" by (metis image_eqI)
    then have "filter (\<lambda>y. f y = f x) xs = []" by (simp add: filter_empty_conv)
    then show ?thesis using True by simp
  next
    case False
    then have "x \<in> set xs" using Cons.prems(2) by simp
    moreover from this have "f a \<noteq> f x" using Cons.prems(1) by (metis distinct.simps(2) image_eqI list.simps(9) set_map)
    ultimately show ?thesis using Cons by simp
  qed
qed

lemma ok_filter:
  "Database_ok db \<Longrightarrow> r \<in> set (recipes db) \<Longrightarrow>
   filter (\<lambda>x. Recipe_id x = Recipe_id r) (recipes db) = [r]"
  by (simp add: Database_ok_def distinct_filter_key)

lemma map_id_bump [simp]:
  "map Recipe_id (map (\<lambda>r. if Recipe_id r = k then r\<lparr>Recipe_views := v\<rparr> else r) rs) =
   map Recipe_id rs"
  by (induction rs) auto

lemma bump_ok:
  assumes "Database_ok db"
  shows "Database_ok (bump k v db)"
proof -
  have ids: "map Recipe_id (recipes (bump k v db)) = map Recipe_id (recipes db)"
    by (simp add: bump_def)
  have ings: "ingredients (bump k v db) = ingredients db"
    by (simp add: bump_def)
  have rows: "list_all (\<lambda>r. RecipeBase (Recipe_title r) (Recipe_cooking_time r) (Recipe_description r))
                (recipes (bump k v db))"
    using assms by (auto simp: Database_ok_def bump_def list_all_iff)
  show ?thesis
    using assms rows unfolding Database_ok_def ids ings by simp
qed


lemma ingredient_rows_recipe_id:
  "i \<in> set (ingredient_rows k rid is) \<Longrightarrow> Ingredient_recipe_id i = rid"
  by (induction "is" arbitrary: k) auto

lemma ingredient_rows_valid:
  "list_all (\<lambda>i. IngredientBase (IngredientCreate_name i) (IngredientCreate_quantity i)) is \<Longrightarrow>
   list_all (\<lambda>i. IngredientBase (Ingredient_name i) (Ingredient_quantity i))
     (ingredient_rows k rid is)"
  by (induction "is" arbitrary: k) auto

lemma created_ok:
  assumes "Database_ok db" and "RecipeCreate_valid d"
  shows "Database_ok (created d db)"
  using assms next_id_fresh [of "map Recipe_id (recipes db)"]
  by (auto simp: Database_ok_def created_def created_row_def RecipeCreate_valid_def list_all_iff
      ingredient_rows_valid [unfolded list_all_iff] dest: ingredient_rows_recipe_id)

lemma order_by_sorted:
  "sorted_wrt (\<lambda>a b. Recipe_views b < Recipe_views a \<or>
                     (Recipe_views a = Recipe_views b \<and> Recipe_cooking_time a \<le> Recipe_cooking_time b))
     (order_by rs)"
proof -
  have "sorted (map (\<lambda>r. (- Recipe_views r, Recipe_cooking_time r)) (order_by rs))"
    unfolding order_by_def by (rule sorted_sort_key)
  then have "sorted_wrt (\<lambda>a b. (- Recipe_views a, Recipe_cooking_time a) \<le>
                               (- Recipe_views b, Recipe_cooking_time b)) (order_by rs)"
    by (simp add: sorted_map)
  then show ?thesis
    by (rule sorted_wrt_mono_rel [rotated]) auto
qed

lemma order_by_mset: "mset (order_by rs) = mset rs"
  by (simp add: order_by_def)

lemma filter_key_id:
  assumes "filter (\<lambda>r. Recipe_id r = k) rs = [row]"
  shows "Recipe_id row = k" and "row \<in> set rs"
proof -
  have "row \<in> set (filter (\<lambda>r. Recipe_id r = k) rs)" using assms by simp
  then show "Recipe_id row = k" and "row \<in> set rs" by simp_all
qed

lemma filter_key_empty:
  "filter (\<lambda>r. Recipe_id r = k) rs = [] \<longleftrightarrow> k \<notin> Recipe_id ` set rs"
  by (auto simp: filter_empty_conv)

lemma ok_ingredients_of:
  "Database_ok db \<Longrightarrow>
   list_all (\<lambda>i. IngredientBase (Ingredient_name i) (Ingredient_quantity i)) (ingredients_of k db)"
  by (auto simp: Database_ok_def ingredients_of_def list_all_iff)

lemma validate_ok:
  assumes "Database_ok db" and "row \<in> set (recipes db)"
  shows "RecipeDetailResponse_model_validate (row\<lparr>Recipe_views := v\<rparr>) (ingredients_of k db) =
     Inr \<lparr>RecipeDetailResponse_id = Recipe_id row, RecipeDetailResponse_title = Recipe_title row,
          RecipeDetailResponse_cooking_time = Recipe_cooking_time row,
          RecipeDetailResponse_description = Recipe_description row,
          RecipeDetailResponse_views = v,
          RecipeDetailResponse_ingredients = map IngredientResponse_of (ingredients_of k db)\<rparr>"
proof -
  have "RecipeBase (Recipe_title row) (Recipe_cooking_time row) (Recipe_description row)"
    using assms by (auto simp: Database_ok_def list_all_iff)
  then show ?thesis
    using ok_ingredients_of [OF assms(1), of k]
    by (simp add: RecipeDetailResponse_model_validate_def)
qed

lemma validate_error:
  "RecipeDetailResponse_model_validate r ings = Inl e \<Longrightarrow> e = ValidationError"
  by (auto simp: RecipeDetailResponse_model_validate_def split: if_splits)

lemma app_get_recipe_ok:
  assumes "Database_ok db" and "filter (\<lambda>r. Recipe_id r = k) (recipes db) = [row]"
    and "int64 k" and "int64 (Recipe_views row + 1)"
  shows "app_get_recipe None k db =
     (Inr \<lparr>RecipeDetailResponse_id = Recipe_id row, RecipeDetailResponse_title = Recipe_title row,
           RecipeDetailResponse_cooking_time = Recipe_cooking_time row,
           RecipeDetailResponse_description = Recipe_description row,
           RecipeDetailResponse_views = Recipe_views row + 1,
           RecipeDetailResponse_ingredients = map IngredientResponse_of (ingredients_of k db)\<rparr>,
      bump k (Recipe_views row + 1) db,
      [SELECT, SELECT, UPDATE, COMMIT, SELECT, SELECT, COMMIT, CLOSE])"
  using validate_ok [OF assms(1) filter_key_id(2) [OF assms(2)], of "Recipe_views row + 1" k]
  by (simp add: app_get_recipe_found [OF assms(3,2,4)])

lemma stored_views_bump:
  "filter (\<lambda>r. Recipe_id r = k) (recipes db) = [row] \<Longrightarrow> stored_views (bump k v db) k = [v]"
  by (simp add: stored_views_def bump_def filter_bump)

lemma stored_views_single:
  assumes "stored_views db k = [v]"
  shows "\<exists>row. filter (\<lambda>r. Recipe_id r = k) (recipes db) = [row] \<and> Recipe_views row = v"
  using assms by (cases "filter (\<lambda>r. Recipe_id r = k) (recipes db)") (auto simp: stored_views_def)

lemma upt_Suc_shift: "map f [0..<Suc n] = f 0 # map (\<lambda>j. f (Suc j)) [0..<n]"
  by (simp add: upt_conv_Cons map_Suc_upt [symmetric] del: upt_Suc)

lemma get_recipe_times_views:
  "Database_ok db \<Longrightarrow> stored_views db k = [v] \<Longrightarrow> int64 k \<Longrightarrow> int64 v \<Longrightarrow> v + int n < 2 ^ 63 \<Longrightarrow>
   stored_views (snd (get_recipe_times n k db)) k = [v + int n] \<and>
   map response_views (fst (get_recipe_times n k db)) = map (\<lambda>j. Some (v + 1 + int j)) [0..<n]"
proof (induction n arbitrary: db v)
  case 0
  then show ?case by simp
next
  case (Suc n)
  from stored_views_single [OF Suc.prems(2)] obtain row where
    row: "filter (\<lambda>r. Recipe_id r = k) (recipes db) = [row]" "Recipe_views row = v"
    by blast
  have v1: "int64 (v + 1)" and vn: "v + 1 + int n < 2 ^ 63"
    using Suc.prems(4,5) by (simp_all add: int64_def)
  have v1': "int64 (Recipe_views row + 1)" using v1 row(2) by simp
  note out = app_get_recipe_ok [OF Suc.prems(1) row(1) Suc.prems(3) v1']
  have after: "database_after (app_get_recipe None k db) = bump k (v + 1) db"
    using out row(2) by (simp add: database_after_def)
  have rv: "response_views (app_get_recipe None k db) = Some (v + 1)"
    using out row(2) by (simp add: response_views_def)
  have ih: "stored_views (snd (get_recipe_times n k (bump k (v + 1) db))) k = [v + 1 + int n] \<and>
            map response_views (fst (get_recipe_times n k (bump k (v + 1) db))) =
              map (\<lambda>j. Some (v + 1 + 1 + int j)) [0..<n]"
    by (rule Suc.IH [OF bump_ok [OF Suc.prems(1)] stored_views_bump [OF row(1)] Suc.prems(3) v1 vn])
  show ?case
    using ih rv after
    by (simp add: split_beta upt_Suc_shift add.assoc add.commute del: upt_Suc)
qed

lemma undigits_snoc: "undigits (ds @ [d]) = 10 * undigits ds + (d - 48)"
  by (simp add: undigits_def)

lemma undigits_digits: "undigits (digits n) = n"
proof (induction n rule: digits.induct)
  case (1 n)
  show ?case
  proof (cases "n < 10")
    case True
    then show ?thesis by (simp add: digits.simps [of n] undigits_def)
  next
    case False
    then have "undigits (digits n) = 10 * undigits (digits (n div 10)) + n mod 10"
      by (simp add: digits.simps [of n] undigits_snoc)
    then show ?thesis using 1 False by simp
  qed
qed

lemma digits_ge: "d \<in> set (digits n) \<Longrightarrow> 48 \<le> d"
proof (induction n rule: digits.induct)
  case (1 n)
  then show ?case
    by (cases "n < 10") (auto simp: digits.simps [of n])
qed

lemma digits_inj: "digits m = digits n \<Longrightarrow> m = n"
  by (metis undigits_digits)

lemma str_int_inj:
  assumes "str_int i = str_int j"
  shows "i = j"
proof -
  have minus: "45 # ds \<noteq> digits n" for ds n
  proof
    assume "45 # ds = digits n"
    then have "45 \<in> set (digits n)" by (metis list.set_intros(1))
    then show False using digits_ge [of 45 n] by simp
  qed
  consider "i < 0" "j < 0" | "i < 0" "0 \<le> j" | "0 \<le> i" "j < 0" | "0 \<le> i" "0 \<le> j"
    by linarith
  then show ?thesis
  proof cases
    case 1
    then have "nat (- i) = nat (- j)" using assms by (auto simp: str_int_def dest: digits_inj)
    then show ?thesis using 1 by simp
  next
    case 2
    then show ?thesis using assms minus by (auto simp: str_int_def)
  next
    case 3
    then show ?thesis using assms minus [of "digits (nat (- j))" "nat i"] by (auto simp: str_int_def)
  next
    case 4
    then have "nat i = nat j" using assms by (auto simp: str_int_def dest: digits_inj)
    then show ?thesis using 4 by simp
  qed
qed

lemma not_found_detail_inj: "not_found_detail i = not_found_detail j \<Longrightarrow> i = j"
  by (auto simp: not_found_detail_def dest: str_int_inj)

lemma enough_1: "b \<noteq> Some 0 \<Longrightarrow> enough 1 b"
  by (cases b) (auto simp: enough_def)

lemma app_get_recipe_http:
  assumes "fst (app_get_recipe b k db) = Inl (HTTPException c m)"
  shows "int64 k \<and> filter (\<lambda>r. Recipe_id r = k) (recipes db) = []"
proof (cases "int64 k")
  case False
  then show ?thesis using assms by (simp add: app_get_recipe_overflow)
next
  case k: True
  show ?thesis
  proof (cases "filter (\<lambda>r. Recipe_id r = k) (recipes db)")
    case Nil
    then show ?thesis using k by simp
  next
    case (Cons x xs)
    show ?thesis
    proof (cases xs)
      case Nil
      with Cons have f: "filter (\<lambda>r. Recipe_id r = k) (recipes db) = [x]" by simp
      show ?thesis
      proof (cases "int64 (Recipe_views x + 1)")
        case True
        show ?thesis
          using assms
          by (auto simp: app_get_recipe_found [OF k f True] split: if_splits sum.splits
              dest: validate_error)
      next
        case False
        show ?thesis
          using assms by (auto simp: app_get_recipe_full [OF k f False] split: if_splits)
      qed
    next
      case (Cons y zs)
      with \<open>filter (\<lambda>r. Recipe_id r = k) (recipes db) = x # xs\<close>
      have f: "filter (\<lambda>r. Recipe_id r = k) (recipes db) = x # y # zs" by simp
      show ?thesis
        using assms by (auto simp: app_get_recipe_multiple [OF k f] split: if_splits)
    qed
  qed
qed

lemma app_get_recipe_after:
  "database_after (app_get_recipe b k db) = db \<or>
   (\<exists>row. filter (\<lambda>r. Recipe_id r = k) (recipes db) = [row] \<and>
          database_after (app_get_recipe b k db) = bump k (Recipe_views row + 1) db)"
proof (cases "int64 k")
  case False
  then show ?thesis by (simp add: app_get_recipe_overflow database_after_def)
next
  case k: True
  show ?thesis
  proof (cases "filter (\<lambda>r. Recipe_id r = k) (recipes db)")
    case Nil
    then show ?thesis by (simp add: app_get_recipe_missing [OF k] database_after_def)
  next
    case (Cons x xs)
    show ?thesis
    proof (cases xs)
      case Nil
      with Cons have f: "filter (\<lambda>r. Recipe_id r = k) (recipes db) = [x]" by simp
      show ?thesis
      proof (cases "int64 (Recipe_views x + 1)")
        case True
        show ?thesis
          by (auto simp: app_get_recipe_found [OF k f True] f database_after_def split: sum.splits)
      next
        case False
        show ?thesis
          by (simp add: app_get_recipe_full [OF k f False] database_after_def)
      qed
    next
      case (Cons y zs)
      with \<open>filter (\<lambda>r. Recipe_id r = k) (recipes db) = x # xs\<close>
      have f: "filter (\<lambda>r. Recipe_id r = k) (recipes db) = x # y # zs" by simp
      show ?thesis
        by (simp add: app_get_recipe_multiple [OF k f] database_after_def)
    qed
  qed
qed


lemma ok_ingredients_of_next:
  "Database_ok db \<Longrightarrow> ingredients_of (next_id (map Recipe_id (recipes db))) db = []"
proof -
  assume ok: "Database_ok db"
  have "Ingredient_recipe_id x \<noteq> next_id (map Recipe_id (recipes db))"
    if "x \<in> set (ingredients db)" for x
  proof -
    have "Ingredient_recipe_id x \<in> set (map Recipe_id (recipes db))"
      using ok that by (simp add: Database_ok_def list_all_iff)
    then show ?thesis using next_id_fresh [of "map Recipe_id (recipes db)"] by metis
  qed
  then show ?thesis by (simp add: ingredients_of_def filter_empty_conv)
qed

lemma filter_ingredient_rows [simp]:
  "filter (\<lambda>i. Ingredient_recipe_id i = rid) (ingredient_rows k rid is) = ingredient_rows k rid is"
  by (induction "is" arbitrary: k) simp_all

lemma ingredients_of_created:
  "Database_ok db \<Longrightarrow>
   ingredients_of (next_id (map Recipe_id (recipes db))) (created d db) =
     ingredient_rows (next_id (map Ingredient_id (ingredients db)))
       (next_id (map Recipe_id (recipes db))) (RecipeCreate_ingredients d)"
  using ok_ingredients_of_next [of db]
  by (simp add: ingredients_of_def created_def)

lemma validate_created:
  assumes "Database_ok db" and "RecipeCreate_valid d"
  shows "RecipeDetailResponse_model_validate (created_row d db)
           (ingredients_of (Recipe_id (created_row d db)) (created d db)) =
     Inr \<lparr>RecipeDetailResponse_id = next_id (map Recipe_id (recipes db)),
          RecipeDetailResponse_title = RecipeCreate_title d,
          RecipeDetailResponse_cooking_time = RecipeCreate_cooking_time d,
          RecipeDetailResponse_description = RecipeCreate_description d,
          RecipeDetailResponse_views = 0,
          RecipeDetailResponse_ingredients =
            map IngredientResponse_of
              (ingredient_rows (next_id (map Ingredient_id (ingredients db)))
                 (next_id (map Recipe_id (recipes db))) (RecipeCreate_ingredients d))\<rparr>"
proof -
  have id: "Recipe_id (created_row d db) = next_id (map Recipe_id (recipes db))"
    by (simp add: created_row_def)
  show ?thesis
    unfolding id ingredients_of_created [OF assms(1)]
    using assms(2) ingredient_rows_valid
    by (simp add: RecipeDetailResponse_model_validate_def created_row_def RecipeCreate_valid_def)
qed

lemma app_post_recipes_ok:
  assumes "Database_ok db" and "RecipeCreate_valid d" and "room d db"
    and "enough (Suc (Suc (Suc (Suc (Suc (Suc (length (RecipeCreate_ingredients d)))))))) b"
  shows "app_post_recipes b d db =
     (Inr \<lparr>RecipeDetailResponse_id = next_id (map Recipe_id (recipes db)),
           RecipeDetailResponse_title = RecipeCreate_title d,
           RecipeDetailResponse_cooking_time = RecipeCreate_cooking_time d,
           RecipeDetailResponse_description = RecipeCreate_description d,
           RecipeDetailResponse_views = 0,
           RecipeDetailResponse_ingredients =
             map IngredientResponse_of
               (ingredient_rows (next_id (map Ingredient_id (ingredients db)))
                  (next_id (map Recipe_id (recipes db))) (RecipeCreate_ingredients d))\<rparr>,
      created d db,
      replicate (Suc (length (RecipeCreate_ingredients d))) INSERT @
        [COMMIT, SELECT, SELECT, SELECT, COMMIT, CLOSE])"
proof -
  have e: "enough (Suc (Suc (length (RecipeCreate_ingredients d)))) b"
    "enough (Suc (Suc (Suc (length (RecipeCreate_ingredients d))))) b"
    "enough (Suc (Suc (Suc (Suc (length (RecipeCreate_ingredients d)))))) b"
    "enough (Suc (Suc (Suc (Suc (Suc (length (RecipeCreate_ingredients d))))))) b"
    using assms(4) by (auto elim: enough_mono)
  show ?thesis
    using e assms(4) validate_created [OF assms(1,2)]
    by (simp add: app_post_recipes_late [OF assms(2,3) e(1)])
qed

lemma app_post_recipes_Inr:
  assumes "fst (app_post_recipes b d db) = Inr c"
  shows "RecipeCreate_valid d \<and> room d db \<and>
         enough (Suc (Suc (Suc (Suc (Suc (Suc (length (RecipeCreate_ingredients d)))))))) b"
proof -
  have v: "RecipeCreate_valid d"
    using assms by (auto simp: app_post_recipes_def split: if_splits)
  have r: "room d db"
    using assms app_post_recipes_full [OF v, of db b] by fastforce
  have e2: "enough (Suc (Suc (length (RecipeCreate_ingredients d)))) b"
    using assms app_post_recipes_early [OF v r, of b] by fastforce
  have "enough (Suc (Suc (Suc (Suc (Suc (Suc (length (RecipeCreate_ingredients d)))))))) b"
    using assms
    by (auto simp: app_post_recipes_late [OF v r e2] split: if_splits sum.splits)
  with v r show ?thesis by simp
qed

lemma app_post_recipes_after:
  "database_after (app_post_recipes b d db) = db \<or>
   (RecipeCreate_valid d \<and> room d db \<and>
    database_after (app_post_recipes b d db) = created d db)"
proof (cases "RecipeCreate_valid d")
  case False
  then show ?thesis by (simp add: app_post_recipes_def database_after_def)
next
  case True
  show ?thesis
  proof (cases "room d db")
    case False
    from app_post_recipes_full [OF True False, of b] show ?thesis
      by (auto simp: database_after_def)
  next
    case r: True
    show ?thesis
    proof (cases "enough (Suc (Suc (length (RecipeCreate_ingredients d)))) b")
      case False
      then show ?thesis by (simp add: app_post_recipes_early [OF True r] database_after_def)
    next
      case e: True
      show ?thesis
        using True r
        by (auto simp: app_post_recipes_late [OF True r e] database_after_def split: sum.splits)
    qed
  qed
qed

lemma update_views_stored [simp]: "stored (snd (update_views kv s)) = stored s"
  by (simp add: update_views_def execute_eq)

lemma update_all_stored [simp]: "stored (snd (update_all kvs s)) = stored s"
proof (induction kvs arbitrary: s)
  case Nil
  then show ?case by simp
next
  case (Cons kv kvs)
  show ?case
  proof (cases "update_views kv s")
    case (Pair r s')
    then have "stored s' = stored s" using update_views_stored [of kv s] by simp
    then show ?thesis using Pair Cons.IH [of s'] by (cases r) simp_all
  qed
qed

lemma flush_stored [simp]: "stored (snd (flush s)) = stored s"
proof (cases "insert_all (new s) (s\<lparr>new := []\<rparr>)")
  case (Pair r s')
  then have s': "stored s' = stored s" using insert_all_stored [of "new s" "s\<lparr>new := []\<rparr>"] by simp
  show ?thesis
  proof (cases r)
    case (Inl e)
    then show ?thesis using Pair s' by (simp add: flush_def)
  next
    case (Inr ks)
    have "stored (snd (update_all (dirty s') (s'\<lparr>dirty := []\<rparr>))) = stored s"
      using s' by simp
    then show ?thesis
      using Pair Inr by (cases "update_all (dirty s') (s'\<lparr>dirty := []\<rparr>)")
        (auto simp: flush_def split: sum.splits)
  qed
qed

lemma app_get_recipes_after [simp]: "database_after (app_get_recipes b skip n db) = db"
  by (simp add: app_get_recipes_eq database_after_def)

lemma app_get_recipe_Inr:
  assumes "fst (app_get_recipe b k db) = Inr d"
  shows "\<exists>row. filter (\<lambda>r. Recipe_id r = k) (recipes db) = [row] \<and>
               int64 k \<and> int64 (Recipe_views row + 1) \<and>
               database_after (app_get_recipe b k db) = bump k (Recipe_views row + 1) db \<and>
               RecipeDetailResponse_views d = Recipe_views row + 1"
proof (cases "int64 k")
  case False
  then show ?thesis using assms by (simp add: app_get_recipe_overflow)
next
  case k: True
  show ?thesis
  proof (cases "filter (\<lambda>r. Recipe_id r = k) (recipes db)")
    case Nil
    then show ?thesis using assms by (simp add: app_get_recipe_missing [OF k] split: if_splits)
  next
    case (Cons x xs)
    show ?thesis
    proof (cases xs)
      case Nil
      with Cons have f: "filter (\<lambda>r. Recipe_id r = k) (recipes db) = [x]" by simp
      show ?thesis
      proof (cases "int64 (Recipe_views x + 1)")
        case True
        show ?thesis
          using assms k True
          by (auto simp: app_get_recipe_found [OF k f True] f database_after_def
              RecipeDetailResponse_model_validate_def split: if_splits sum.splits)
      next
        case False
        show ?thesis
          using assms by (simp add: app_get_recipe_full [OF k f False] split: if_splits)
      qed
    next
      case (Cons y zs)
      with \<open>filter (\<lambda>r. Recipe_id r = k) (recipes db) = x # xs\<close>
      have f: "filter (\<lambda>r. Recipe_id r = k) (recipes db) = x # y # zs" by simp
      show ?thesis
        using assms by (simp add: app_get_recipe_multiple [OF k f] split: if_splits)
    qed
  qed
qed

lemma bump_nth:
  assumes "filter (\<lambda>r. Recipe_id r = k) (recipes db) = [row]" and "i < length (recipes db)"
  shows "recipes (bump k (Recipe_views row + 1) db) ! i =
           (if Recipe_id (recipes db ! i) = k
            then (recipes db ! i)\<lparr>Recipe_views := Recipe_views (recipes db ! i) + 1\<rparr>
            else recipes db ! i)"
proof (cases "Recipe_id (recipes db ! i) = k")
  case True
  then have "recipes db ! i \<in> set (filter (\<lambda>r. Recipe_id r = k) (recipes db))"
    using assms(2) by simp
  then have "recipes db ! i = row" using assms(1) by simp
  then show ?thesis using True assms(2) by (simp add: bump_def)
next
  case False
  then show ?thesis using assms(2) by (simp add: bump_def)
qed

lemma handle_cases:
  "handle b req db = db \<or>
   (\<exists>k row. req = GetRecipe k \<and> filter (\<lambda>r. Recipe_id r = k) (recipes db) = [row] \<and>
           handle b req db = bump k (Recipe_views row + 1) db) \<or>
   (\<exists>d. req = CreateRecipe d \<and> handle b req db = created d db)"
proof (cases req)
  case (ListRecipes skip n)
  then show ?thesis by simp
next
  case (GetRecipe k)
  then show ?thesis using app_get_recipe_after [of b k db] by auto
next
  case (CreateRecipe d)
  then show ?thesis using app_post_recipes_after [of b d db] by auto
qed
lemma soup_valid_time: "0 < t \<Longrightarrow> RecipeCreate_valid (soup\<lparr>RecipeCreate_cooking_time := t\<rparr>)"
  by (simp add: RecipeCreate_valid_def RecipeBase_def IngredientBase_def str_type_def
      scalar_value_def soup_def salt_def u_def)


lemma empty_db_ok: "Database_ok empty_db"
  by (simp add: Database_ok_def empty_db_def)


lemma post_soup:
  assumes t: "0 < t"
  shows "app_post_recipes None (soup\<lparr>RecipeCreate_cooking_time := t\<rparr>) empty_db =
     (if int64 t then
        (Inr \<lparr>RecipeDetailResponse_id = 1, RecipeDetailResponse_title = u ''Borscht'',
              RecipeDetailResponse_cooking_time = t,
              RecipeDetailResponse_description = u ''Traditional soup with beets and cabbage'',
              RecipeDetailResponse_views = 0,
              RecipeDetailResponse_ingredients =
                [\<lparr>IngredientResponse_id = 1, IngredientResponse_name = u ''Salt'',
                  IngredientResponse_quantity = u ''1 tsp''\<rparr>]\<rparr>,
         created (soup\<lparr>RecipeCreate_cooking_time := t\<rparr>) empty_db,
         [INSERT, INSERT, COMMIT, SELECT, SELECT, SELECT, COMMIT, CLOSE])
      else (Inl OverflowError, empty_db, [ROLLBACK, CLOSE]))"
proof (cases "int64 t")
  case True
  have "room soup empty_db" by code_simp
  then have r: "room (soup\<lparr>RecipeCreate_cooking_time := t\<rparr>) empty_db"
    using True by (simp add: room_def)
  show ?thesis
    using True t app_post_recipes_ok [OF empty_db_ok soup_valid_time [OF t] r, of None]
    by (simp add: empty_db_def next_id_def soup_def salt_def IngredientResponse_of_def)
next
  case False
  then show ?thesis
    using soup_valid_time [OF t]
    by (simp add: app_post_recipes_def create_recipe_def io_defs Let_def)
qed

lemma post_soup_60:
  "app_post_recipes None soup empty_db =
     (Inr \<lparr>RecipeDetailResponse_id = 1, RecipeDetailResponse_title = u ''Borscht'',
           RecipeDetailResponse_cooking_time = 60,
           RecipeDetailResponse_description = u ''Traditional soup with beets and cabbage'',
           RecipeDetailResponse_views = 0,
           RecipeDetailResponse_ingredients =
             [\<lparr>IngredientResponse_id = 1, IngredientResponse_name = u ''Salt'',
               IngredientResponse_quantity = u ''1 tsp''\<rparr>]\<rparr>,
      created soup empty_db,
      [INSERT, INSERT, COMMIT, SELECT, SELECT, SELECT, COMMIT, CLOSE])"
proof -
  have s: "soup\<lparr>RecipeCreate_cooking_time := 60\<rparr> = soup" by (simp add: soup_def)
  show ?thesis using post_soup [of 60] by (simp add: s int64_def)
qed


section \<open>Properties of the service\<close>
text \<open>
  C1. For every recipe stored, with a 64-bit id and 64-bit views, \<open>GET /recipes/{id}\<close> on
  its id adds exactly 1 to the stored views, in one transaction (one \<open>UPDATE\<close>, then
  \<open>COMMIT\<close>), and answers with the detail view of the recipe whose views are the stored
  value before the call plus 1; after \<open>n \<ge> 1\<close> such requests in a row the stored views
  are \<open>n\<close> more, and the responses count up from the value before plus 1. All of this as
  long as the views stay below \<open>2 ^ 63\<close>. The database satisfies the constraints of the
  schema and the storage engine does not fail (\<open>None\<close>).
\<close>

theorem get_recipe_increments_views:
  assumes "Database_ok db" and "r \<in> set (recipes db)"
    and "int64 (Recipe_id r)" and "int64 (Recipe_views r)"
    and "0 < n" and "Recipe_views r + int n < 2 ^ 63"
  shows "stored_views db (Recipe_id r) = [Recipe_views r] \<and>
         (\<exists>db'. app_get_recipe None (Recipe_id r) db =
            (Inr \<lparr>RecipeDetailResponse_id = Recipe_id r, RecipeDetailResponse_title = Recipe_title r,
                  RecipeDetailResponse_cooking_time = Recipe_cooking_time r,
                  RecipeDetailResponse_description = Recipe_description r,
                  RecipeDetailResponse_views = Recipe_views r + 1,
                  RecipeDetailResponse_ingredients =
                    map IngredientResponse_of (ingredients_of (Recipe_id r) db)\<rparr>,
             db', [SELECT, SELECT, UPDATE, COMMIT, SELECT, SELECT, COMMIT, CLOSE]) \<and>
            stored_views db' (Recipe_id r) = [Recipe_views r + 1]) \<and>
         stored_views (snd (get_recipe_times n (Recipe_id r) db)) (Recipe_id r) =
           [Recipe_views r + int n] \<and>
         map response_views (fst (get_recipe_times n (Recipe_id r) db)) =
           map (\<lambda>j. Some (Recipe_views r + 1 + int j)) [0..<n]"
proof -
  note f = ok_filter [OF assms(1,2)]
  have sv: "stored_views db (Recipe_id r) = [Recipe_views r]"
    using f by (simp add: stored_views_def)
  have v1: "int64 (Recipe_views r + 1)"
    using assms(4,5,6) by (simp add: int64_def)
  show ?thesis
    using sv app_get_recipe_ok [OF assms(1) f assms(3) v1] stored_views_bump [OF f]
      get_recipe_times_views [OF assms(1) sv assms(3,4,6)]
    by simp
qed

text \<open>Three requests for the omelette of the example cookbook, which had 3 views.\<close>

theorem get_recipe_increments_views_witness:
  "Database_ok cookbook \<and> omelette \<in> set (recipes cookbook) \<and>
   int64 (Recipe_id omelette) \<and> int64 (Recipe_views omelette) \<and> (0::nat) < 3 \<and>
   Recipe_views omelette + int 3 < 2 ^ 63 \<and>
   stored_views cookbook 2 = [3] \<and>
   stored_views (snd (get_recipe_times 3 2 cookbook)) 2 = [6] \<and>
   map response_views (fst (get_recipe_times 3 2 cookbook)) = [Some 4, Some 5, Some 6]"
proof -
  have ok: "Database_ok cookbook" by code_simp
  have r: "omelette \<in> set (recipes cookbook)" by (simp add: cookbook_def)
  have k: "Recipe_id omelette = 2" "Recipe_views omelette = 3" by (simp_all add: omelette_def)
  have i: "int64 (Recipe_id omelette)" "int64 (Recipe_views omelette)"
    by (simp_all add: k int64_def)
  have n: "(0::nat) < 3" by simp
  have b: "Recipe_views omelette + int 3 < 2 ^ 63" by (simp add: k)
  show ?thesis
    using ok r i n b get_recipe_increments_views [OF ok r i n b]
    by (simp add: k upt_conv_Cons)
qed

text \<open>
  Without the bound the statement fails: the recipe with id 2 of the library is stored with
  \<open>2 ^ 63 - 1\<close> views. The request finds it, the \<open>UPDATE\<close> to \<open>2 ^ 63\<close> raises
  \<open>OverflowError\<close> before it is executed, and the stored views stay.
\<close>

theorem get_recipe_views_overflow_counterexample:
  "Database_ok library \<and> bestseller \<in> set (recipes library) \<and> Recipe_id bestseller = 2 \<and>
   stored_views library 2 = [9223372036854775807] \<and>
   app_get_recipe None 2 library = (Inl OverflowError, library, [SELECT, SELECT, ROLLBACK, CLOSE])"
proof -
  have ok: "Database_ok library" by code_simp
  have r: "bestseller \<in> set (recipes library)" by (simp add: library_def)
  have k: "Recipe_id bestseller = 2" by (simp add: bestseller_def omelette_def)
  have f: "filter (\<lambda>r. Recipe_id r = 2) (recipes library) = [bestseller]"
    using ok_filter [OF ok r] by (simp add: k)
  have v: "Recipe_views bestseller = 9223372036854775807" by (simp add: bestseller_def)
  have sv: "stored_views library 2 = [9223372036854775807]"
    using f v by (simp add: stored_views_def)
  have "app_get_recipe None 2 library =
          (Inl OverflowError, library, [SELECT, SELECT, ROLLBACK, CLOSE])"
    using app_get_recipe_full [OF _ f, of None] by (simp add: v int64_def)
  then show ?thesis using ok r k sv by simp
qed

text \<open>
  C2. A recipe created by \<open>POST /recipes\<close> with the one ingredient Salt, 1 tsp, is returned
  by the next \<open>GET /recipes/{id}\<close> on the new id with the title, cooking time and
  description of the request and exactly that ingredient. The views of that response are
  1 and not 0: the creation answers with views 0, and the read counts itself before it
  answers. The database satisfies the constraints of the schema and the storage engine does
  not fail during the read.
\<close>

theorem round_trip_amended:
  assumes "Database_ok db" and "RecipeCreate_ingredients d = [salt]"
    and "app_post_recipes b d db = (Inr c, db', t)"
  shows "RecipeDetailResponse_views c = 0 \<and>
         (\<exists>g db'' t'. app_get_recipe None (RecipeDetailResponse_id c) db' = (Inr g, db'', t') \<and>
            RecipeDetailResponse_title g = RecipeCreate_title d \<and>
            RecipeDetailResponse_cooking_time g = RecipeCreate_cooking_time d \<and>
            RecipeDetailResponse_description g = RecipeCreate_description d \<and>
            RecipeDetailResponse_views g = 1 \<and>
            map (\<lambda>i. (IngredientResponse_name i, IngredientResponse_quantity i))
                (RecipeDetailResponse_ingredients g) = [(u ''Salt'', u ''1 tsp'')])"
proof -
  have "fst (app_post_recipes b d db) = Inr c" using assms(3) by simp
  from app_post_recipes_Inr [OF this]
  have v: "RecipeCreate_valid d" and r: "room d db"
    and e: "enough (Suc (Suc (Suc (Suc (Suc (Suc (length (RecipeCreate_ingredients d)))))))) b"
    by simp_all
  note out = app_post_recipes_ok [OF assms(1) v r e]
  have c: "RecipeDetailResponse_id c = next_id (map Recipe_id (recipes db))"
    "RecipeDetailResponse_views c = 0" and db': "db' = created d db"
    using out assms(3) by auto
  have ok': "Database_ok db'" unfolding db' by (rule created_ok [OF assms(1) v])
  have row: "created_row d db \<in> set (recipes db')" by (simp add: db' created_def)
  have id: "Recipe_id (created_row d db) = RecipeDetailResponse_id c"
    by (simp add: c created_row_def)
  note f = ok_filter [OF ok' row, unfolded id]
  have k: "int64 (RecipeDetailResponse_id c)" using r by (simp add: c room_def)
  have w: "int64 (Recipe_views (created_row d db) + 1)"
    by (simp add: created_row_def int64_def)
  note get = app_get_recipe_ok [OF ok' f k w]
  have ings: "ingredients_of (RecipeDetailResponse_id c) db' =
      ingredient_rows (next_id (map Ingredient_id (ingredients db)))
        (next_id (map Recipe_id (recipes db))) [salt]"
    using ingredients_of_created [OF assms(1), of d] by (simp add: c db' assms(2))
  show ?thesis
    using c(2) get
    by (simp add: ings created_row_def IngredientResponse_of_def salt_def)
qed

text \<open>The soup, created in an empty database and read back.\<close>

theorem round_trip_amended_witness:
  "Database_ok empty_db \<and> RecipeCreate_ingredients soup = [salt] \<and>
   fst (app_post_recipes None soup empty_db) =
     Inr \<lparr>RecipeDetailResponse_id = 1, RecipeDetailResponse_title = u ''Borscht'',
          RecipeDetailResponse_cooking_time = 60,
          RecipeDetailResponse_description = u ''Traditional soup with beets and cabbage'',
          RecipeDetailResponse_views = 0,
          RecipeDetailResponse_ingredients =
            [\<lparr>IngredientResponse_id = 1, IngredientResponse_name = u ''Salt'',
              IngredientResponse_quantity = u ''1 tsp''\<rparr>]\<rparr> \<and>
   (\<exists>g db'' t'. app_get_recipe None 1 (database_after (app_post_recipes None soup empty_db)) =
        (Inr g, db'', t') \<and>
      RecipeDetailResponse_title g = RecipeCreate_title soup \<and>
      RecipeDetailResponse_cooking_time g = RecipeCreate_cooking_time soup \<and>
      RecipeDetailResponse_description g = RecipeCreate_description soup \<and>
      RecipeDetailResponse_views g = 1 \<and>
      map (\<lambda>i. (IngredientResponse_name i, IngredientResponse_quantity i))
          (RecipeDetailResponse_ingredients g) = [(u ''Salt'', u ''1 tsp'')])"
proof -
  note ok = empty_db_ok
  have i: "RecipeCreate_ingredients soup = [salt]" by (simp add: soup_def)
  note out = post_soup_60
  have c: "fst (app_post_recipes None soup empty_db) =
     Inr \<lparr>RecipeDetailResponse_id = 1, RecipeDetailResponse_title = u ''Borscht'',
          RecipeDetailResponse_cooking_time = 60,
          RecipeDetailResponse_description = u ''Traditional soup with beets and cabbage'',
          RecipeDetailResponse_views = 0,
          RecipeDetailResponse_ingredients =
            [\<lparr>IngredientResponse_id = 1, IngredientResponse_name = u ''Salt'',
              IngredientResponse_quantity = u ''1 tsp''\<rparr>]\<rparr>"
    using out by simp
  have a: "database_after (app_post_recipes None soup empty_db) = created soup empty_db"
    using out by (simp add: database_after_def)
  show ?thesis
    using ok i c round_trip_amended [OF ok i out] unfolding a by simp
qed

text \<open>
  The same run against the statement with views 0: the creation gives id 1 and views 0, the
  read of recipe 1 that follows answers with views 1.
\<close>

theorem round_trip_views_counterexample:
  "fst (app_post_recipes None soup empty_db) =
     Inr \<lparr>RecipeDetailResponse_id = 1, RecipeDetailResponse_title = u ''Borscht'',
          RecipeDetailResponse_cooking_time = 60,
          RecipeDetailResponse_description = u ''Traditional soup with beets and cabbage'',
          RecipeDetailResponse_views = 0,
          RecipeDetailResponse_ingredients =
            [\<lparr>IngredientResponse_id = 1, IngredientResponse_name = u ''Salt'',
              IngredientResponse_quantity = u ''1 tsp''\<rparr>]\<rparr> \<and>
   response_views
     (app_get_recipe None 1 (database_after (app_post_recipes None soup empty_db))) = Some 1"
proof -
  have a: "database_after (app_post_recipes None soup empty_db) = created soup empty_db"
    using post_soup_60 by (simp add: database_after_def)
  have g: "response_views (app_get_recipe None 1 (created soup empty_db)) = Some 1"
    by code_simp
  show ?thesis using post_soup_60 g unfolding a by simp
qed
text \<open>
  C3. For every stored set of recipes and every \<open>skip\<close> and \<open>limit\<close> from 0 to
  \<open>2 ^ 63 - 1\<close>, listing returns the recipes sorted by views descending, ties broken by
  cooking time ascending, without the first \<open>skip\<close> of that order and cut to at most
  \<open>limit\<close>; with nothing stored the result is the empty list; each element carries
  exactly id, title, cooking time and views. The storage engine is taken not to fail
  (\<open>None\<close>), and the request leaves the database as it was.
\<close>

theorem list_recipes_sorted_page:
  assumes "0 \<le> skip" and "skip < 2 ^ 63" and "0 \<le> n" and "n < 2 ^ 63"
  shows "\<exists>full. mset full = mset (recipes db) \<and>
           sorted_wrt (\<lambda>a b. Recipe_views b < Recipe_views a \<or>
                             (Recipe_views a = Recipe_views b \<and>
                              Recipe_cooking_time a \<le> Recipe_cooking_time b)) full \<and>
           app_get_recipes None (Some skip) (Some n) db =
             (Inr (map (\<lambda>r. \<lparr>RecipeListResponse_id = Recipe_id r,
                              RecipeListResponse_title = Recipe_title r,
                              RecipeListResponse_cooking_time = Recipe_cooking_time r,
                              RecipeListResponse_views = Recipe_views r\<rparr>)
                       (take (nat n) (drop (nat skip) full))),
              db, [SELECT, COMMIT, CLOSE])"
proof (intro exI conjI)
  show "mset (order_by (recipes db)) = mset (recipes db)" by (rule order_by_mset)
  show "sorted_wrt (\<lambda>a b. Recipe_views b < Recipe_views a \<or>
                          (Recipe_views a = Recipe_views b \<and>
                           Recipe_cooking_time a \<le> Recipe_cooking_time b)) (order_by (recipes db))"
    by (rule order_by_sorted)
  have v: "RecipeListResponse_model_validate =
          (\<lambda>r. \<lparr>RecipeListResponse_id = Recipe_id r, RecipeListResponse_title = Recipe_title r,
                RecipeListResponse_cooking_time = Recipe_cooking_time r,
                RecipeListResponse_views = Recipe_views r\<rparr>)"
    by (rule ext) (simp add: RecipeListResponse_model_validate_def)
  have i: "int64 skip" "int64 n" using assms by (simp_all add: int64_def)
  show "app_get_recipes None (Some skip) (Some n) db =
             (Inr (map (\<lambda>r. \<lparr>RecipeListResponse_id = Recipe_id r,
                              RecipeListResponse_title = Recipe_title r,
                              RecipeListResponse_cooking_time = Recipe_cooking_time r,
                              RecipeListResponse_views = Recipe_views r\<rparr>)
                       (take (nat n) (drop (nat skip) (order_by (recipes db))))),
              db, [SELECT, COMMIT, CLOSE])"
    using assms(1,3) i v by (simp add: app_get_recipes_eq limit_def offset_def)
qed

text \<open>The second page of size one of the example cookbook is the recipe that was never viewed.\<close>

theorem list_recipes_sorted_page_witness:
  "(0::int) \<le> 1 \<and> (1::int) < 2 ^ 63 \<and>
   fst (app_get_recipes None (Some 1) (Some 1) cookbook) =
     Inr [\<lparr>RecipeListResponse_id = 1, RecipeListResponse_title = u ''Borscht'',
           RecipeListResponse_cooking_time = 60, RecipeListResponse_views = 0\<rparr>] \<and>
   (\<exists>full. mset full = mset (recipes cookbook) \<and>
           sorted_wrt (\<lambda>a b. Recipe_views b < Recipe_views a \<or>
                             (Recipe_views a = Recipe_views b \<and>
                              Recipe_cooking_time a \<le> Recipe_cooking_time b)) full \<and>
           app_get_recipes None (Some 1) (Some 1) cookbook =
             (Inr (map (\<lambda>r. \<lparr>RecipeListResponse_id = Recipe_id r,
                              RecipeListResponse_title = Recipe_title r,
                              RecipeListResponse_cooking_time = Recipe_cooking_time r,
                              RecipeListResponse_views = Recipe_views r\<rparr>)
                       (take (nat 1) (drop (nat 1) full))),
              cookbook, [SELECT, COMMIT, CLOSE]))"
proof -
  have e: "fst (app_get_recipes None (Some 1) (Some 1) cookbook) =
     Inr [\<lparr>RecipeListResponse_id = 1, RecipeListResponse_title = u ''Borscht'',
           RecipeListResponse_cooking_time = 60, RecipeListResponse_views = 0\<rparr>]"
    by code_simp
  have h: "(0::int) \<le> 1" "(1::int) < 2 ^ 63" by simp_all
  show ?thesis
    using e h list_recipes_sorted_page [OF h h, of cookbook] by simp
qed

text \<open>
  Without the upper bounds the statement fails: \<open>limit = 2 ^ 63\<close> is not a SQLite
  integer. The query raises \<open>OverflowError\<close> when it takes its parameters, no
  \<open>SELECT\<close> is executed and there is no list.
\<close>

theorem list_recipes_limit_overflow_counterexample:
  "(0::int) \<le> 9223372036854775808 \<and>
   app_get_recipes None (Some 0) (Some 9223372036854775808) cookbook =
     (Inl OverflowError, cookbook, [ROLLBACK, CLOSE])"
  by (simp add: app_get_recipes_eq int64_def)
text \<open>
  C4. \<open>GET /recipes/{id}\<close> fails with the 404 \<open>HTTPException\<close> exactly when the id is a
  64-bit integer and no stored recipe has it; the request then is \<open>(404, detail)\<close> with the
  id in the detail (the detail determines the id), and the database is left as it was,
  after a \<open>ROLLBACK\<close>. An id outside the 64 bits is answered with \<open>OverflowError\<close>, also
  without a change. The storage engine executes at least the lookup (\<open>b \<noteq> Some 0\<close>).
\<close>

theorem get_recipe_not_found:
  assumes "b \<noteq> Some 0"
  shows "((\<exists>c m. fst (app_get_recipe b k db) = Inl (HTTPException c m)) \<longleftrightarrow>
            int64 k \<and> k \<notin> Recipe_id ` set (recipes db)) \<and>
         (int64 k \<and> k \<notin> Recipe_id ` set (recipes db) \<longrightarrow>
            app_get_recipe b k db =
              (Inl (HTTPException 404 (not_found_detail k)), db, [SELECT, ROLLBACK, CLOSE])) \<and>
         (\<not> int64 k \<longrightarrow> app_get_recipe b k db = (Inl OverflowError, db, [ROLLBACK, CLOSE])) \<and>
         (\<forall>k'. not_found_detail k' = not_found_detail k \<longrightarrow> k' = k)"
proof (intro conjI)
  have missing: "app_get_recipe b k db =
      (Inl (HTTPException 404 (not_found_detail k)), db, [SELECT, ROLLBACK, CLOSE])"
    if "int64 k" and "k \<notin> Recipe_id ` set (recipes db)"
    using that enough_1 [OF assms] by (simp add: app_get_recipe_missing filter_key_empty)
  show "(\<exists>c m. fst (app_get_recipe b k db) = Inl (HTTPException c m)) \<longleftrightarrow>
          int64 k \<and> k \<notin> Recipe_id ` set (recipes db)"
  proof
    assume "\<exists>c m. fst (app_get_recipe b k db) = Inl (HTTPException c m)"
    then show "int64 k \<and> k \<notin> Recipe_id ` set (recipes db)"
      using app_get_recipe_http filter_key_empty by blast
  next
    assume "int64 k \<and> k \<notin> Recipe_id ` set (recipes db)"
    then have "app_get_recipe b k db =
      (Inl (HTTPException 404 (not_found_detail k)), db, [SELECT, ROLLBACK, CLOSE])"
      using missing by blast
    then show "\<exists>c m. fst (app_get_recipe b k db) = Inl (HTTPException c m)"
      by simp
  qed
  show "int64 k \<and> k \<notin> Recipe_id ` set (recipes db) \<longrightarrow>
          app_get_recipe b k db =
            (Inl (HTTPException 404 (not_found_detail k)), db, [SELECT, ROLLBACK, CLOSE])"
    using missing by blast
  show "\<not> int64 k \<longrightarrow> app_get_recipe b k db = (Inl OverflowError, db, [ROLLBACK, CLOSE])"
    using app_get_recipe_overflow by blast
  show "\<forall>k'. not_found_detail k' = not_found_detail k \<longrightarrow> k' = k"
    using not_found_detail_inj by blast
qed

text \<open>Recipe 9999 of the example cookbook, and the id \<open>- (2 ^ 63) - 1\<close>.\<close>

theorem get_recipe_not_found_witness:
  "(None :: nat option) \<noteq> Some 0 \<and> int64 9999 \<and> 9999 \<notin> Recipe_id ` set (recipes cookbook) \<and>
   app_get_recipe None 9999 cookbook =
     (Inl (HTTPException 404 (not_found_detail 9999)), cookbook, [SELECT, ROLLBACK, CLOSE]) \<and>
   not_found_detail 9999 =
     [1056, 1077, 1094, 1077, 1087, 1090, 32, 1089, 32, 73, 68, 32, 57, 57, 57, 57,
      32, 1085, 1077, 32, 1085, 1072, 1081, 1076, 1077, 1085] \<and>
   \<not> int64 (- 9223372036854775809) \<and>
   app_get_recipe None (- 9223372036854775809) cookbook =
     (Inl OverflowError, cookbook, [ROLLBACK, CLOSE])"
proof -
  have b: "(None :: nat option) \<noteq> Some 0" by simp
  have i: "int64 9999" by (simp add: int64_def)
  have m: "9999 \<notin> Recipe_id ` set (recipes cookbook)"
    by (simp add: cookbook_def borscht_def omelette_def)
  have d: "not_found_detail 9999 =
     [1056, 1077, 1094, 1077, 1087, 1090, 32, 1089, 32, 73, 68, 32, 57, 57, 57, 57,
      32, 1085, 1077, 32, 1085, 1072, 1081, 1076, 1077, 1085]"
    by (simp add: not_found_detail_def str_int_def digits.simps [of 9999] digits.simps [of 999]
        digits.simps [of 99] digits.simps [of 9])
  have o: "\<not> int64 (- 9223372036854775809)" by (simp add: int64_def)
  show ?thesis
    using b i m d o get_recipe_not_found [OF b, of 9999 cookbook]
      get_recipe_not_found [OF b, of "- 9223372036854775809" cookbook]
    by blast
qed

text \<open>
  Without the 64 bits the equivalence fails: no recipe of the example cookbook has the id
  \<open>2 ^ 63\<close>, and the request for it ends in \<open>OverflowError\<close>, not in the 404; the lookup
  is not executed.
\<close>

theorem get_recipe_id_overflow_counterexample:
  "9223372036854775808 \<notin> Recipe_id ` set (recipes cookbook) \<and>
   app_get_recipe None 9223372036854775808 cookbook =
     (Inl OverflowError, cookbook, [ROLLBACK, CLOSE])"
proof -
  have m: "9223372036854775808 \<notin> Recipe_id ` set (recipes cookbook)"
    by (simp add: cookbook_def borscht_def omelette_def)
  have "\<not> int64 9223372036854775808" by (simp add: int64_def)
  then show ?thesis using m by (simp add: app_get_recipe_overflow)
qed

text \<open>
  C6. \<open>POST /recipes\<close> answers with a validation failure, executes no statement and leaves
  the database unchanged, whatever the state of the storage engine, for every body whose
  title is empty or longer than 255, whose cooking time is not read as an integer or is read
  as one that is not positive, whose description is shorter than 10, or one of whose
  ingredients has a name outside 1 to 255 or a quantity outside 1 to 100 characters. The
  cooking time is read as the schema reads it, in lax mode, whatever the reader of strings.
\<close>

theorem create_recipe_rejects_invalid:
  assumes "Body_title body = [] \<or> 255 < length (Body_title body) \<or>
           (case lax_int read (Body_cooking_time body) of None \<Rightarrow> True | Some i \<Rightarrow> i \<le> 0) \<or>
           length (Body_description body) < 10 \<or>
           (\<exists>i \<in> set (Body_ingredients body).
              IngredientCreate_name i = [] \<or> 255 < length (IngredientCreate_name i) \<or>
              IngredientCreate_quantity i = [] \<or> 100 < length (IngredientCreate_quantity i))"
  shows "app_post_recipes_body read b body db = (Inl RequestValidationError, db, [])"
proof (cases "lax_int read (Body_cooking_time body)")
  case None
  then show ?thesis by (simp add: app_post_recipes_body_def RecipeCreate_of_def)
next
  case (Some t)
  let ?d = "\<lparr>RecipeCreate_title = Body_title body, RecipeCreate_cooking_time = t,
             RecipeCreate_description = Body_description body,
             RecipeCreate_ingredients = Body_ingredients body\<rparr>"
  have "\<not> RecipeCreate_valid ?d"
  proof
    assume v: "RecipeCreate_valid ?d"
    then have t: "Body_title body \<noteq> []" "length (Body_title body) \<le> 255"
      "0 < t" "10 \<le> length (Body_description body)"
      by (auto simp: RecipeCreate_valid_def RecipeBase_def)
    from v have i: "\<forall>i \<in> set (Body_ingredients body).
        IngredientCreate_name i \<noteq> [] \<and> length (IngredientCreate_name i) \<le> 255 \<and>
        IngredientCreate_quantity i \<noteq> [] \<and> length (IngredientCreate_quantity i) \<le> 100"
      by (auto simp: RecipeCreate_valid_def IngredientBase_def list_all_iff)
    from assms t i Some show False by (fastforce simp: not_less [symmetric])
  qed
  then show ?thesis
    using Some by (simp add: app_post_recipes_body_def RecipeCreate_of_def app_post_recipes_def)
qed

text \<open>
  A description of five characters, with an engine that would fail at once; and the
  cooking time \<open>"0"\<close>, a string that is read as the number 0.
\<close>

theorem create_recipe_rejects_invalid_witness:
  "length (Body_description ((soup_body (JInt 60))\<lparr>Body_description := u ''Short''\<rparr>)) = 5 \<and>
   app_post_recipes_body decimal (Some 0)
     ((soup_body (JInt 60))\<lparr>Body_description := u ''Short''\<rparr>) cookbook =
     (Inl RequestValidationError, cookbook, []) \<and>
   lax_int decimal (Body_cooking_time (soup_body (JStr (u ''0'')))) = Some 0 \<and>
   app_post_recipes_body decimal None (soup_body (JStr (u ''0''))) cookbook =
     (Inl RequestValidationError, cookbook, [])"
proof -
  have l: "length (Body_description ((soup_body (JInt 60))\<lparr>Body_description := u ''Short''\<rparr>)) = 5"
    by (simp add: u_def)
  then have s: "length (Body_description ((soup_body (JInt 60))\<lparr>Body_description := u ''Short''\<rparr>)) < 10"
    by simp
  have z: "lax_int decimal (Body_cooking_time (soup_body (JStr (u ''0'')))) = Some 0"
    by (simp add: soup_body_def decimal_def u_def undigits_def)
  then have c: "case lax_int decimal (Body_cooking_time (soup_body (JStr (u ''0'')))) of
                  None \<Rightarrow> True | Some i \<Rightarrow> i \<le> 0"
    by simp
  show ?thesis
    using l s z c
      create_recipe_rejects_invalid
        [of "(soup_body (JInt 60))\<lparr>Body_description := u ''Short''\<rparr>" decimal "Some 0" cookbook]
      create_recipe_rejects_invalid [of "soup_body (JStr (u ''0''))" decimal None cookbook]
    by blast
qed

text \<open>
  The statement with \<open>cooking_time\<close> not an integer fails: the body of the soup with the
  JSON value \<open>true\<close> as its cooking time is not rejected. The schema reads \<open>true\<close> as 1,
  and the recipe is created and stored with the cooking time 1.
\<close>

theorem create_recipe_accepts_true_counterexample:
  "Body_cooking_time (soup_body (JBool True)) = JBool True \<and>
   fst (app_post_recipes_body decimal None (soup_body (JBool True)) empty_db) =
     Inr \<lparr>RecipeDetailResponse_id = 1, RecipeDetailResponse_title = u ''Borscht'',
          RecipeDetailResponse_cooking_time = 1,
          RecipeDetailResponse_description = u ''Traditional soup with beets and cabbage'',
          RecipeDetailResponse_views = 0,
          RecipeDetailResponse_ingredients =
            [\<lparr>IngredientResponse_id = 1, IngredientResponse_name = u ''Salt'',
              IngredientResponse_quantity = u ''1 tsp''\<rparr>]\<rparr> \<and>
   map Recipe_cooking_time
     (recipes (database_after
        (app_post_recipes_body decimal None (soup_body (JBool True)) empty_db))) = [1]"
proof -
  have d: "RecipeCreate_of decimal (soup_body (JBool True)) =
             Some (soup\<lparr>RecipeCreate_cooking_time := 1\<rparr>)"
    by (simp add: RecipeCreate_of_def soup_body_def soup_def)
  have p: "app_post_recipes_body decimal None (soup_body (JBool True)) empty_db =
             app_post_recipes None (soup\<lparr>RecipeCreate_cooking_time := 1\<rparr>) empty_db"
    by (simp add: app_post_recipes_body_def d)
  show ?thesis
    unfolding p using post_soup [of 1]
    by (simp add: int64_def database_after_def created_def created_row_def empty_db_def
        soup_body_def)
qed

text \<open>
  C7. The scope \<open>get_db\<close> around any endpoint, from any session. On every path the session
  ends closed, by a final \<open>CLOSE\<close>, with its transaction and its pending objects dropped.
  When the endpoint raises \<open>e\<close>, a \<open>ROLLBACK\<close> precedes the \<open>CLOSE\<close>, what was stored
  stays as the endpoint left it, and the result is the same \<open>e\<close>. When the endpoint
  returns, what is pending is flushed and committed: the stored database becomes the content
  of the transaction after the flush, and the result is the value of the endpoint. The
  commit is part of the scope: when the flush or the \<open>COMMIT\<close> fails, its error is handled
  like an error of the endpoint.
\<close>

theorem get_db_scope:
  "closed (snd (get_db endpoint s)) \<and>
   last (trace (snd (get_db endpoint s))) = CLOSE \<and>
   tx (snd (get_db endpoint s)) = stored (snd (get_db endpoint s)) \<and>
   new (snd (get_db endpoint s)) = [] \<and> dirty (snd (get_db endpoint s)) = [] \<and>
   (case endpoint s of
      (Inl e, s1) \<Rightarrow>
        fst (get_db endpoint s) = Inl e \<and>
        stored (snd (get_db endpoint s)) = stored s1 \<and>
        trace (snd (get_db endpoint s)) = trace s1 @ [ROLLBACK, CLOSE]
    | (Inr v, s1) \<Rightarrow>
        (case flush s1 of
           (Inl e, s2) \<Rightarrow>
             fst (get_db endpoint s) = Inl e \<and>
             stored (snd (get_db endpoint s)) = stored s1 \<and>
             trace (snd (get_db endpoint s)) = trace s2 @ [ROLLBACK, CLOSE]
         | (Inr ks, s2) \<Rightarrow>
             if enough 1 (budget s2)
             then fst (get_db endpoint s) = Inr v \<and>
                  stored (snd (get_db endpoint s)) = tx s2 \<and>
                  trace (snd (get_db endpoint s)) = trace s2 @ [COMMIT, CLOSE]
             else fst (get_db endpoint s) = Inl StorageError \<and>
                  stored (snd (get_db endpoint s)) = stored s1 \<and>
                  trace (snd (get_db endpoint s)) = trace s2 @ [ROLLBACK, CLOSE]))"
proof (cases "endpoint s")
  case (Pair r s1)
  show ?thesis
  proof (cases r)
    case (Inl e)
    then show ?thesis using Pair by (simp add: get_db_def rollback_def close_def)
  next
    case (Inr v)
    show ?thesis
    proof (cases "flush s1")
      case f: (Pair r2 s2)
      then have st: "stored s2 = stored s1" using flush_stored [of s1] by simp
      show ?thesis
      proof (cases r2)
        case (Inl e)
        then show ?thesis
          using Pair Inr f st by (simp add: get_db_def commit_def bind_def rollback_def close_def)
      next
        case r2: (Inr ks)
        show ?thesis
          using Pair Inr f r2 st
          by (simp add: get_db_def commit_def bind_def rollback_def close_def execute_eq)
      qed
    qed
  qed
qed

text \<open>
  The creation of the soup in the example cookbook, once with an engine that fails at the
  ingredient and once with one that does not fail.
\<close>

theorem get_db_scope_witness:
  "closed (snd (get_db (create_recipe soup) (AsyncSessionLocal (Some 1) cookbook))) \<and>
   last (trace (snd (get_db (create_recipe soup) (AsyncSessionLocal (Some 1) cookbook)))) = CLOSE \<and>
   fst (get_db (create_recipe soup) (AsyncSessionLocal (Some 1) cookbook)) = Inl StorageError \<and>
   stored (snd (get_db (create_recipe soup) (AsyncSessionLocal (Some 1) cookbook))) = cookbook \<and>
   closed (snd (get_db (create_recipe soup) (AsyncSessionLocal None cookbook))) \<and>
   stored (snd (get_db (create_recipe soup) (AsyncSessionLocal None cookbook))) =
     created soup cookbook"
proof -
  have e: "fst (get_db (create_recipe soup) (AsyncSessionLocal (Some 1) cookbook)) =
             Inl StorageError"
    by code_simp
  have u: "stored (snd (get_db (create_recipe soup) (AsyncSessionLocal (Some 1) cookbook))) =
             cookbook"
    by code_simp
  have c: "stored (snd (get_db (create_recipe soup) (AsyncSessionLocal None cookbook))) =
             created soup cookbook"
    by code_simp
  show ?thesis
    using e u c
      get_db_scope [of "create_recipe soup" "AsyncSessionLocal (Some 1) cookbook"]
      get_db_scope [of "create_recipe soup" "AsyncSessionLocal None cookbook"]
    by blast
qed

text \<open>
  C8. Every request (list, read, create), whatever the storage engine does, keeps the views
  non-negative and keeps every recipe in place with its id; the views of a recipe stay the
  same or grow by exactly 1, and they grow only by a read of that recipe's id; a row that
  the request adds has views 0 and comes from a creation; a read that answers has added
  exactly 1 to the stored views of its id.
\<close>

theorem views_invariant:
  assumes "list_all (\<lambda>r. 0 \<le> Recipe_views r) (recipes db)"
  shows "list_all (\<lambda>r. 0 \<le> Recipe_views r) (recipes (handle b req db)) \<and>
         length (recipes db) \<le> length (recipes (handle b req db)) \<and>
         (\<forall>i < length (recipes db).
            Recipe_id (recipes (handle b req db) ! i) = Recipe_id (recipes db ! i) \<and>
            (Recipe_views (recipes (handle b req db) ! i) = Recipe_views (recipes db ! i) \<or>
             Recipe_views (recipes (handle b req db) ! i) = Recipe_views (recipes db ! i) + 1 \<and>
             req = GetRecipe (Recipe_id (recipes db ! i)))) \<and>
         (\<forall>i. length (recipes db) \<le> i \<and> i < length (recipes (handle b req db)) \<longrightarrow>
            Recipe_views (recipes (handle b req db) ! i) = 0 \<and> (\<exists>d. req = CreateRecipe d)) \<and>
         (\<forall>k d. req = GetRecipe k \<and> fst (app_get_recipe b k db) = Inr d \<longrightarrow>
            stored_views (handle b req db) k = map (\<lambda>v. v + 1) (stored_views db k))"
proof -
  have last: "\<forall>k d. req = GetRecipe k \<and> fst (app_get_recipe b k db) = Inr d \<longrightarrow>
            stored_views (handle b req db) k = map (\<lambda>v. v + 1) (stored_views db k)"
  proof (intro allI impI)
    fix k d
    assume a: "req = GetRecipe k \<and> fst (app_get_recipe b k db) = Inr d"
    then obtain row where row: "filter (\<lambda>r. Recipe_id r = k) (recipes db) = [row]"
      "database_after (app_get_recipe b k db) = bump k (Recipe_views row + 1) db"
      using app_get_recipe_Inr by blast
    show "stored_views (handle b req db) k = map (\<lambda>v. v + 1) (stored_views db k)"
      using a row stored_views_bump [OF row(1), of "Recipe_views row + 1"]
      by (simp add: stored_views_def)
  qed
  consider "handle b req db = db"
    | k row where "req = GetRecipe k" "filter (\<lambda>r. Recipe_id r = k) (recipes db) = [row]"
        "handle b req db = bump k (Recipe_views row + 1) db"
    | d where "req = CreateRecipe d" "handle b req db = created d db"
    using handle_cases [of b req db] by blast
  then have "list_all (\<lambda>r. 0 \<le> Recipe_views r) (recipes (handle b req db)) \<and>
         length (recipes db) \<le> length (recipes (handle b req db)) \<and>
         (\<forall>i < length (recipes db).
            Recipe_id (recipes (handle b req db) ! i) = Recipe_id (recipes db ! i) \<and>
            (Recipe_views (recipes (handle b req db) ! i) = Recipe_views (recipes db ! i) \<or>
             Recipe_views (recipes (handle b req db) ! i) = Recipe_views (recipes db ! i) + 1 \<and>
             req = GetRecipe (Recipe_id (recipes db ! i)))) \<and>
         (\<forall>i. length (recipes db) \<le> i \<and> i < length (recipes (handle b req db)) \<longrightarrow>
            Recipe_views (recipes (handle b req db) ! i) = 0 \<and> (\<exists>d. req = CreateRecipe d))"
  proof cases
    case 1
    then show ?thesis using assms by auto
  next
    case 2
    have len: "length (recipes (bump k (Recipe_views row + 1) db)) = length (recipes db)"
      by (simp add: bump_def)
    have nth: "\<forall>i < length (recipes db).
        recipes (bump k (Recipe_views row + 1) db) ! i =
           (if Recipe_id (recipes db ! i) = k
            then (recipes db ! i)\<lparr>Recipe_views := Recipe_views (recipes db ! i) + 1\<rparr>
            else recipes db ! i)"
      using bump_nth [OF 2(2)] by blast
    have nonneg: "\<forall>i < length (recipes db). 0 \<le> Recipe_views (recipes db ! i)"
      using assms by (simp add: list_all_length)
    have "list_all (\<lambda>r. 0 \<le> Recipe_views r) (recipes (bump k (Recipe_views row + 1) db))"
      unfolding list_all_length len using nth nonneg by auto
    then show ?thesis
      unfolding 2(3) len using nth 2(1) by auto
  next
    case 3
    have r: "recipes (created d db) = recipes db @ [created_row d db]"
      by (simp add: created_def)
    have v: "Recipe_views (created_row d db) = 0" by (simp add: created_row_def)
    show ?thesis
      unfolding 3(2) r using assms v 3(1)
      by (auto simp: nth_append less_Suc_eq)
  qed
  with last show ?thesis by blast
qed

text \<open>A read of the omelette of the example cookbook, the recipe at index 1.\<close>

theorem views_invariant_witness:
  "list_all (\<lambda>r. 0 \<le> Recipe_views r) (recipes cookbook) \<and>
   (1::nat) < length (recipes cookbook) \<and>
   recipes (handle None (GetRecipe 2) cookbook) =
     [borscht, omelette\<lparr>Recipe_views := 4\<rparr>] \<and>
   list_all (\<lambda>r. 0 \<le> Recipe_views r) (recipes (handle None (GetRecipe 2) cookbook)) \<and>
   (Recipe_views (recipes (handle None (GetRecipe 2) cookbook) ! 1) =
      Recipe_views (recipes cookbook ! 1) \<or>
    Recipe_views (recipes (handle None (GetRecipe 2) cookbook) ! 1) =
      Recipe_views (recipes cookbook ! 1) + 1 \<and>
    GetRecipe 2 = GetRecipe (Recipe_id (recipes cookbook ! 1)))"
proof -
  have h: "list_all (\<lambda>r. 0 \<le> Recipe_views r) (recipes cookbook)" by code_simp
  have l: "(1::nat) < length (recipes cookbook)" by (simp add: cookbook_def)
  have e: "recipes (handle None (GetRecipe 2) cookbook) = [borscht, omelette\<lparr>Recipe_views := 4\<rparr>]"
    by code_simp
  show ?thesis
    using h l e views_invariant [OF h, of None "GetRecipe 2"] by blast
qed

text \<open>
  C9. Frame of \<open>GET /recipes/{id}\<close>, whatever the storage engine does: the ingredients table
  is unchanged, the recipes table keeps its rows in place, every row keeps its id, title,
  cooking time and description, and a row with another id is unchanged altogether. Only
  the views of the rows with the requested id can differ.
\<close>

theorem get_recipe_frame:
  "ingredients (database_after (app_get_recipe b k db)) = ingredients db \<and>
   length (recipes (database_after (app_get_recipe b k db))) = length (recipes db) \<and>
   (\<forall>i < length (recipes db).
      Recipe_id (recipes (database_after (app_get_recipe b k db)) ! i) = Recipe_id (recipes db ! i) \<and>
      Recipe_title (recipes (database_after (app_get_recipe b k db)) ! i) =
        Recipe_title (recipes db ! i) \<and>
      Recipe_cooking_time (recipes (database_after (app_get_recipe b k db)) ! i) =
        Recipe_cooking_time (recipes db ! i) \<and>
      Recipe_description (recipes (database_after (app_get_recipe b k db)) ! i) =
        Recipe_description (recipes db ! i) \<and>
      (Recipe_id (recipes db ! i) \<noteq> k \<longrightarrow>
         recipes (database_after (app_get_recipe b k db)) ! i = recipes db ! i))"
  using app_get_recipe_after [of b k db]
  by (auto simp: bump_def)

text \<open>A request for recipe 2 of the example cookbook leaves recipe 1, at index 0, as it was.\<close>

theorem get_recipe_frame_witness:
  "(0::nat) < length (recipes cookbook) \<and> Recipe_id (recipes cookbook ! 0) \<noteq> 2 \<and>
   ingredients (database_after (app_get_recipe None 2 cookbook)) = ingredients cookbook \<and>
   recipes (database_after (app_get_recipe None 2 cookbook)) ! 0 = recipes cookbook ! 0"
proof -
  have l: "(0::nat) < length (recipes cookbook)" by (simp add: cookbook_def)
  have i: "Recipe_id (recipes cookbook ! 0) \<noteq> 2" by (simp add: cookbook_def borscht_def)
  show ?thesis
    using l i get_recipe_frame [of None 2 cookbook] by blast
qed

text \<open>
  C10. Without pagination arguments \<open>skip\<close> is 0 and \<open>limit\<close> is 100: the response has at
  most 100 recipes, and exactly 100 when more are stored and the engine does not fail.
\<close>

theorem list_recipes_default_page:
  "app_get_recipes b None None db = app_get_recipes b (Some 0) (Some 100) db \<and>
   response_length (app_get_recipes b None None db) \<le> 100 \<and>
   response_length (app_get_recipes None None None db) = min 100 (length (recipes db))"
  by (auto simp: app_get_recipes_eq response_length_def limit_def offset_def order_by_def
      int64_def min.commute)

end
